theory Spec2Isabelle
  imports Complex_Main
begin

section \<open>The InterProScan pipeline (extract\_interpro\_data.py)\<close>

text \<open>
  A shallow embedding of the class \<^verbatim>\<open>InterProScanPipeline\<close> and of \<^verbatim>\<open>main\<close>.

  \<^item> Python strings are \<open>string\<close>; a character stands for one code point below 256.
  \<^item> Python integers are \<open>int\<close>; the readings of \<^verbatim>\<open>time.time()\<close> are \<open>real\<close>
    numbers of seconds.
  \<^item> Everything outside the process (the two web services, the clock, the file
    system) is a \<open>responder\<close>: it answers every external call with a reply and with the
    time the call took, and it may look at the whole history of earlier calls, so any
    sequence of answers is the behaviour of some responder.
  \<^item> The program's own state is passed explicitly: \<open>stats\<close> for \<^verbatim>\<open>self.stats\<close> and
    \<open>world\<close> for the clock, the log of external calls, and the written files.
  \<^item> An exception is a value: \<open>Raised e\<close> as the reply of a call, where \<open>e\<close> is what
    \<^verbatim>\<open>str(e)\<close> gives.
  \<^item> \<^verbatim>\<open>print\<close> has no effect on the control flow and is left out, except in
    \<^verbatim>\<open>main\<close>, whose messages are part of its result.
\<close>

subsection \<open>Strings\<close>

definition newline :: char where
  "newline = CHR 0x0A"

text \<open>\<^verbatim>\<open>str.isspace\<close> on the code points below 256.\<close>

definition isspace :: "char \<Rightarrow> bool" where
  "isspace c = (let n = (of_char c :: nat) in
     (9 \<le> n \<and> n \<le> 13) \<or> (28 \<le> n \<and> n \<le> 32) \<or> n = 133 \<or> n = 160)"

text \<open>\<^verbatim>\<open>s.strip()\<close>\<close>

definition strip :: "string \<Rightarrow> string" where
  "strip s = rev (dropWhile isspace (rev (dropWhile isspace s)))"

text \<open>\<^verbatim>\<open>s.split(c)\<close> for a one-character separator: never an empty list.\<close>

fun split_on :: "char \<Rightarrow> string \<Rightarrow> string list" where
  "split_on c [] = [[]]"
| "split_on c (x # xs) =
     (if x = c then [] # split_on c xs
      else (case split_on c xs of
              [] \<Rightarrow> [[x]]
            | y # ys \<Rightarrow> (x # y) # ys))"

text \<open>\<^verbatim>\<open>str(n)\<close> for an integer.\<close>

definition digit_char :: "nat \<Rightarrow> char" where
  "digit_char d = ''0123456789'' ! d"

fun str_nat :: "nat \<Rightarrow> string" where
  "str_nat n = (if n < 10 then [digit_char n] else str_nat (n div 10) @ [digit_char (n mod 10)])"

definition str_int :: "int \<Rightarrow> string" where
  "str_int i = (if i < 0 then CHR ''-'' # str_nat (nat (- i)) else str_nat (nat i))"

subsection \<open>Run statistics\<close>

text \<open>
  \<^verbatim>\<open>self.stats\<close>: five counters and the error log. The keys of the dictionary are the
  constructors of \<open>stat_name\<close>; the field of the key \<^verbatim>\<open>'total'\<close> is \<open>total_ids\<close>.
\<close>

datatype stat_name =
  Total | Sequences_fetched | Interproscan_submitted | Interproscan_completed | Failed

record stats =
  total_ids :: int
  sequences_fetched :: int
  interproscan_submitted :: int
  interproscan_completed :: int
  failed :: int
  errors :: "string list"

definition init_stats :: stats where
  "init_stats = \<lparr>total_ids = 0, sequences_fetched = 0, interproscan_submitted = 0,
     interproscan_completed = 0, failed = 0, errors = []\<rparr>"

text \<open>
  \<^verbatim>\<open>add_error\<close> and \<^verbatim>\<open>increment_stat\<close> run under \<^verbatim>\<open>self.lock\<close>. In the functions
  below, which run one after the other, the lock is always free; the section on the lock
  takes both apart into the steps of threads.
\<close>

definition add_error :: "string \<Rightarrow> stats \<Rightarrow> stats" where
  "add_error error s = s\<lparr>errors := errors s @ [error]\<rparr>"

fun increment_stat :: "stat_name \<Rightarrow> stats \<Rightarrow> stats" where
  "increment_stat Total s = s\<lparr>total_ids := total_ids s + 1\<rparr>"
| "increment_stat Sequences_fetched s = s\<lparr>sequences_fetched := sequences_fetched s + 1\<rparr>"
| "increment_stat Interproscan_submitted s =
     s\<lparr>interproscan_submitted := interproscan_submitted s + 1\<rparr>"
| "increment_stat Interproscan_completed s =
     s\<lparr>interproscan_completed := interproscan_completed s + 1\<rparr>"
| "increment_stat Failed s = s\<lparr>failed := failed s + 1\<rparr>"

subsection \<open>The outside world\<close>

text \<open>
  A \<^verbatim>\<open>pathlib.Path\<close> built with \<^verbatim>\<open>/\<close> is the list of its parts.
\<close>

type_synonym path = "string list"

datatype call =
    Get string
  | Post string "(string \<times> string option) list"
  | Sleep int
  | Read_file string
  | Mkdir path
  | Open_w path
  | Write path string

text \<open>
  \<open>Response code text\<close> is an HTTP response; for a file operation and for
  \<^verbatim>\<open>time.sleep\<close> any \<open>Response\<close> means that the call returned (for \<open>Read_file\<close> the
  text is the content read). \<open>Raised e\<close> is an exception.
\<close>

datatype reply = Response int string | Raised string

type_synonym responder = "(call \<times> reply) list \<Rightarrow> real \<Rightarrow> call \<Rightarrow> reply \<times> real"

record world =
  clock :: real
  trace :: "(call \<times> reply) list"
  files :: "path \<rightharpoonup> string"

text \<open>
  \<^verbatim>\<open>time.sleep(n)\<close> takes at least \<open>n\<close> seconds and no call takes negative time: the
  clock never runs backwards.
\<close>

fun min_duration :: "call \<Rightarrow> real" where
  "min_duration (Sleep n) = of_int n"
| "min_duration _ = 0"

definition perform :: "responder \<Rightarrow> call \<Rightarrow> world \<Rightarrow> reply \<times> world" where
  "perform orc c w =
     (case orc (trace w) (clock w) c of
        (r, d) \<Rightarrow> (r, w\<lparr>clock := clock w + max (min_duration c) d,
                         trace := trace w @ [(c, r)]\<rparr>))"

text \<open>
  The environment of a run: the responder, and the three library functions that read or
  write a result document of type \<open>'r\<close>: \<^verbatim>\<open>response.json()\<close> (\<open>None\<close> when it raises),
  the truth value of a document in \<^verbatim>\<open>if results:\<close>, and the text \<^verbatim>\<open>json.dump\<close> writes
  with \<^verbatim>\<open>indent=2\<close>.
\<close>

record 'r env =
  responder :: responder
  json_loads :: "string \<Rightarrow> 'r option"
  truthy :: "'r \<Rightarrow> bool"
  json_dump :: "'r \<Rightarrow> string"

text \<open>The fields \<^verbatim>\<open>__init__\<close> sets besides the lock and the statistics.\<close>

record config =
  uniprot_base_url :: string
  interproscan_base_url :: string
  output_dir :: string
  email :: "string option"

subsection \<open>The stages\<close>

definition fetch_uniprot_sequence ::
  "'r env \<Rightarrow> config \<Rightarrow> string \<Rightarrow> stats \<Rightarrow> world \<Rightarrow> (string \<times> string) option \<times> stats \<times> world" where
  "fetch_uniprot_sequence env cfg uniprot_id s w =
     (let url = uniprot_base_url cfg @ uniprot_id @ ''.fasta'' in
      case perform (responder env) (Get url) w of
        (Response status_code text, w') \<Rightarrow>
          if status_code = 200 then
            (let fasta_content = strip text;
                 lines = split_on newline fasta_content in
             if length lines \<ge> 2 then
               (let description = drop 1 (hd lines);
                    sequence = concat (tl lines) in
                (Some (sequence, description), increment_stat Sequences_fetched s, w'))
             else (None, add_error (uniprot_id @ '': Invalid FASTA format'') s, w'))
          else (None, add_error (uniprot_id @ '': UniProt fetch failed - HTTP ''
                                   @ str_int status_code) s, w')
      | (Raised e, w') \<Rightarrow>
          (None, add_error (uniprot_id @ '': UniProt fetch error - '' @ e) s, w'))"

definition submit_to_interproscan ::
  "'r env \<Rightarrow> config \<Rightarrow> string \<Rightarrow> string \<Rightarrow> stats \<Rightarrow> world \<Rightarrow> string option \<times> stats \<times> world" where
  "submit_to_interproscan env cfg uniprot_id sequence s w =
     (let params = [(''email'', email cfg), (''sequence'', Some sequence),
                    (''format'', Some ''json''), (''goterms'', Some ''true''),
                    (''pathways'', Some ''true'')] in
      case perform (responder env) (Post (interproscan_base_url cfg @ ''/run'') params) w of
        (Response status_code text, w') \<Rightarrow>
          if status_code = 200 then
            (let job_id = strip text in
             (Some job_id, increment_stat Interproscan_submitted s, w'))
          else (None, add_error (uniprot_id @ '': InterProScan submission failed - HTTP ''
                                   @ str_int status_code) s, w')
      | (Raised e, w') \<Rightarrow>
          (None, add_error (uniprot_id @ '': InterProScan submission error - '' @ e) s, w'))"

definition status_url :: "config \<Rightarrow> string \<Rightarrow> string" where
  "status_url cfg job_id = interproscan_base_url cfg @ ''/status/'' @ job_id"

definition result_url :: "config \<Rightarrow> string \<Rightarrow> string" where
  "result_url cfg job_id = interproscan_base_url cfg @ ''/result/'' @ job_id @ ''/json''"

text \<open>What \<^verbatim>\<open>check_job_status\<close> makes of the reply to its request.\<close>

fun status_of_reply :: "reply \<Rightarrow> string" where
  "status_of_reply (Response status_code text) =
     (if status_code = 200 then strip text else ''ERROR'')"
| "status_of_reply (Raised e) = ''ERROR''"

definition check_job_status :: "'r env \<Rightarrow> config \<Rightarrow> string \<Rightarrow> world \<Rightarrow> string \<times> world" where
  "check_job_status env cfg job_id w =
     (case perform (responder env) (Get (status_url cfg job_id)) w of
        (r, w') \<Rightarrow> (status_of_reply r, w'))"

text \<open>What \<^verbatim>\<open>get_interproscan_results\<close> makes of the reply to its request.\<close>

fun results_of_reply :: "'r env \<Rightarrow> reply \<Rightarrow> 'r option" where
  "results_of_reply env (Response status_code text) =
     (if status_code = 200 then json_loads env text else None)"
| "results_of_reply env (Raised e) = None"

definition get_interproscan_results ::
  "'r env \<Rightarrow> config \<Rightarrow> string \<Rightarrow> world \<Rightarrow> 'r option \<times> world" where
  "get_interproscan_results env cfg job_id w =
     (case perform (responder env) (Get (result_url cfg job_id)) w of
        (r, w') \<Rightarrow> (results_of_reply env r, w'))"

definition check_interval :: int where
  "check_interval = 30"

definition sleep :: "'r env \<Rightarrow> int \<Rightarrow> world \<Rightarrow> world" where
  "sleep env n w = snd (perform (responder env) (Sleep n) w)"

text \<open>
  The loop of \<^verbatim>\<open>wait_for_completion\<close>. The last two branches of the source do the
  same apart from what they print.
\<close>

function wait_loop ::
  "'r env \<Rightarrow> config \<Rightarrow> string \<Rightarrow> string \<Rightarrow> int \<Rightarrow> real \<Rightarrow> stats \<Rightarrow> world
     \<Rightarrow> 'r option \<times> stats \<times> world" where
  "wait_loop env cfg job_id uniprot_id max_wait start_time s w =
     (if clock w - start_time < of_int max_wait then
        (case check_job_status env cfg job_id w of
           (status, w1) \<Rightarrow>
             if status = ''FINISHED'' then
               (case get_interproscan_results env cfg job_id w1 of
                  (Some results, w2) \<Rightarrow>
                    if truthy env results
                    then (Some results, increment_stat Interproscan_completed s, w2)
                    else (None, add_error (uniprot_id @ '': Failed to retrieve results'') s, w2)
                | (None, w2) \<Rightarrow>
                    (None, add_error (uniprot_id @ '': Failed to retrieve results'') s, w2))
             else if status = ''ERROR'' \<or> status = ''FAILURE'' then
               (None, add_error (uniprot_id @ '': Job failed with status '' @ status) s, w1)
             else if status = ''RUNNING'' then
               wait_loop env cfg job_id uniprot_id max_wait start_time s
                 (sleep env check_interval w1)
             else
               wait_loop env cfg job_id uniprot_id max_wait start_time s
                 (sleep env check_interval w1))
      else
        (None, add_error (uniprot_id @ '': Timed out after '' @ str_int max_wait
                            @ '' seconds'') s, w))"
  by pat_completeness auto
termination
proof (relation "measure (\<lambda>(env, cfg, job_id, uniprot_id, max_wait, start_time, s, w).
                  nat \<lceil>start_time + of_int max_wait - clock w\<rceil>)", goal_cases)
  case 1
  show ?case by simp
next
  case (2 env cfg job_id uniprot_id max_wait start_time s w status w1)
  have "clock w \<le> clock w1"
    using 2(2) by (auto simp: check_job_status_def perform_def split: prod.splits)
  moreover have "clock w1 + 30 \<le> clock (sleep env check_interval w1)"
    by (simp add: sleep_def perform_def check_interval_def split: prod.splits)
  moreover have "0 < start_time + of_int max_wait - clock w"
    using 2(1) by simp
  ultimately show ?case by simp linarith
next
  case (3 env cfg job_id uniprot_id max_wait start_time s w status w1)
  have "clock w \<le> clock w1"
    using 3(2) by (auto simp: check_job_status_def perform_def split: prod.splits)
  moreover have "clock w1 + 30 \<le> clock (sleep env check_interval w1)"
    by (simp add: sleep_def perform_def check_interval_def split: prod.splits)
  moreover have "0 < start_time + of_int max_wait - clock w"
    using 3(1) by simp
  ultimately show ?case by simp linarith
qed

definition wait_for_completion ::
  "'r env \<Rightarrow> config \<Rightarrow> string \<Rightarrow> string \<Rightarrow> int \<Rightarrow> stats \<Rightarrow> world \<Rightarrow> 'r option \<times> stats \<times> world" where
  "wait_for_completion env cfg job_id uniprot_id max_wait s w =
     (let start_time = clock w in
      wait_loop env cfg job_id uniprot_id max_wait start_time s w)"

subsection \<open>Writing the results\<close>

text \<open>
  \<^verbatim>\<open>open(path, 'w')\<close> empties the file and \<^verbatim>\<open>f.write\<close> appends to it. Each returns
  \<open>Some e\<close> when it raises. What \<^verbatim>\<open>json.dump\<close> writes piece by piece is written
  here in one call.
\<close>

definition open_w :: "responder \<Rightarrow> path \<Rightarrow> world \<Rightarrow> string option \<times> world" where
  "open_w orc p w =
     (case perform orc (Open_w p) w of
        (Response code text, w') \<Rightarrow> (None, w'\<lparr>files := (files w')(p \<mapsto> [])\<rparr>)
      | (Raised e, w') \<Rightarrow> (Some e, w'))"

definition fwrite :: "responder \<Rightarrow> path \<Rightarrow> string \<Rightarrow> world \<Rightarrow> string option \<times> world" where
  "fwrite orc p data w =
     (case perform orc (Write p data) w of
        (Response code text, w') \<Rightarrow>
          (None, w'\<lparr>files := (files w')(p \<mapsto>
                     (case files w' p of None \<Rightarrow> data | Some old \<Rightarrow> old @ data))\<rparr>)
      | (Raised e, w') \<Rightarrow> (Some e, w'))"

text \<open>
  \<^verbatim>\<open>for i in range(0, len(sequence), 80): f.write(sequence[i:i+80] + '\n')\<close>, on
  what is left of the sequence.
\<close>

function write_lines :: "responder \<Rightarrow> path \<Rightarrow> string \<Rightarrow> world \<Rightarrow> string option \<times> world" where
  "write_lines orc p sequence w =
     (if sequence = [] then (None, w)
      else (case fwrite orc p (take 80 sequence @ [newline]) w of
              (Some e, w') \<Rightarrow> (Some e, w')
            | (None, w') \<Rightarrow> write_lines orc p (drop 80 sequence) w'))"
  by pat_completeness auto
termination
  by (relation "measure (\<lambda>(orc, p, sequence, w). length sequence)") auto

definition write_fasta ::
  "responder \<Rightarrow> path \<Rightarrow> string \<Rightarrow> string \<Rightarrow> world \<Rightarrow> string option \<times> world" where
  "write_fasta orc p description sequence w =
     (case open_w orc p w of
        (Some e, w1) \<Rightarrow> (Some e, w1)
      | (None, w1) \<Rightarrow>
          (case fwrite orc p (''>'' @ description @ [newline]) w1 of
             (Some e, w2) \<Rightarrow> (Some e, w2)
           | (None, w2) \<Rightarrow> write_lines orc p sequence w2))"

definition write_json :: "responder \<Rightarrow> path \<Rightarrow> string \<Rightarrow> world \<Rightarrow> string option \<times> world" where
  "write_json orc p text w =
     (case open_w orc p w of
        (Some e, w1) \<Rightarrow> (Some e, w1)
      | (None, w1) \<Rightarrow> fwrite orc p text w1)"

definition fasta_path :: "config \<Rightarrow> string \<Rightarrow> path" where
  "fasta_path cfg uniprot_id = [output_dir cfg, ''sequences'', uniprot_id @ ''.fasta'']"

definition json_path :: "config \<Rightarrow> string \<Rightarrow> path" where
  "json_path cfg uniprot_id = [output_dir cfg, ''interproscan_results'', uniprot_id @ ''.json'']"

definition save_results ::
  "'r env \<Rightarrow> config \<Rightarrow> string \<Rightarrow> string \<Rightarrow> string \<Rightarrow> 'r \<Rightarrow> stats \<Rightarrow> world \<Rightarrow> stats \<times> world" where
  "save_results env cfg uniprot_id sequence description results s w =
     (case write_fasta (responder env) (fasta_path cfg uniprot_id) description sequence w of
        (Some e, w1) \<Rightarrow> (add_error (uniprot_id @ '': Save error - '' @ e) s, w1)
      | (None, w1) \<Rightarrow>
          (case write_json (responder env) (json_path cfg uniprot_id)
                  (json_dump env results) w1 of
             (Some e, w2) \<Rightarrow> (add_error (uniprot_id @ '': Save error - '' @ e) s, w2)
           | (None, w2) \<Rightarrow> (s, w2)))"

subsection \<open>One protein\<close>

text \<open>The default of \<^verbatim>\<open>max_wait\<close>, which \<^verbatim>\<open>process_single_protein\<close> does not override.\<close>

definition default_max_wait :: int where
  "default_max_wait = 3600"

text \<open>
  \<^verbatim>\<open>not sequence_data\<close> holds of \<^verbatim>\<open>None\<close> only (a pair is never false),
  \<^verbatim>\<open>not job_id\<close> of \<^verbatim>\<open>None\<close> and of the empty string, \<^verbatim>\<open>not results\<close> of
  \<^verbatim>\<open>None\<close> and of a false document.
\<close>

definition process_single_protein ::
  "'r env \<Rightarrow> config \<Rightarrow> string \<Rightarrow> stats \<Rightarrow> world \<Rightarrow> bool \<times> stats \<times> world" where
  "process_single_protein env cfg uniprot_id s w =
     (case fetch_uniprot_sequence env cfg uniprot_id s w of
        (None, s1, w1) \<Rightarrow> (False, increment_stat Failed s1, w1)
      | (Some (sequence, description), s1, w1) \<Rightarrow>
          (case submit_to_interproscan env cfg uniprot_id sequence s1 w1 of
             (None, s2, w2) \<Rightarrow> (False, increment_stat Failed s2, w2)
           | (Some job_id, s2, w2) \<Rightarrow>
               if job_id = [] then (False, increment_stat Failed s2, w2)
               else
                 (case wait_for_completion env cfg job_id uniprot_id default_max_wait s2 w2 of
                    (None, s3, w3) \<Rightarrow> (False, increment_stat Failed s3, w3)
                  | (Some results, s3, w3) \<Rightarrow>
                      if \<not> truthy env results then (False, increment_stat Failed s3, w3)
                      else
                        (case save_results env cfg uniprot_id sequence description results s3 w3 of
                           (s4, w4) \<Rightarrow> (True, s4, w4)))))"

subsection \<open>All proteins\<close>

datatype outcome = Sys_exit int | Uncaught string | Returned stats

text \<open>
  \<^verbatim>\<open>f.readlines()\<close> on the text of the file: the lines with their terminators.
\<close>

definition readlines :: "string \<Rightarrow> string list" where
  "readlines content =
     (let ls = split_on newline content in
      map (\<lambda>l. l @ [newline]) (butlast ls) @ (if last ls = [] then [] else [last ls]))"

definition read_uniprot_ids :: "'r env \<Rightarrow> string \<Rightarrow> world \<Rightarrow> (string list) option \<times> world" where
  "read_uniprot_ids env input_file w =
     (case perform (responder env) (Read_file input_file) w of
        (Response code content, w') \<Rightarrow>
          (Some (map strip (filter (\<lambda>line. strip line \<noteq> []) (readlines content))), w')
      | (Raised e, w') \<Rightarrow> (None, w'))"

text \<open>
  The pool and the loop over \<^verbatim>\<open>as_completed\<close>, one protein after the other. Every
  stage catches its own exceptions, so \<^verbatim>\<open>future.result()\<close> returns the truth value
  of \<^verbatim>\<open>process_single_protein\<close>, which is only printed, and the \<^verbatim>\<open>except\<close>
  branch of the loop is never entered. The section on the lock has the workers run at
  the same time.
\<close>

fun process_all :: "'r env \<Rightarrow> config \<Rightarrow> string list \<Rightarrow> stats \<Rightarrow> world \<Rightarrow> stats \<times> world" where
  "process_all env cfg [] s w = (s, w)"
| "process_all env cfg (uniprot_id # uniprot_ids) s w =
     (case process_single_protein env cfg uniprot_id s w of
        (success, s', w') \<Rightarrow> process_all env cfg uniprot_ids s' w')"

definition process_proteins ::
  "'r env \<Rightarrow> config \<Rightarrow> string \<Rightarrow> int \<Rightarrow> stats \<Rightarrow> world \<Rightarrow> outcome \<times> world" where
  "process_proteins env cfg input_file max_workers s w =
     (if email cfg = None \<or> email cfg = Some [] then (Sys_exit 1, w)
      else
        (case read_uniprot_ids env input_file w of
           (None, w') \<Rightarrow> (Sys_exit 1, w')
         | (Some uniprot_ids, w') \<Rightarrow>
             (case process_all env cfg uniprot_ids
                     (s\<lparr>total_ids := int (length uniprot_ids)\<rparr>) w' of
                (s', w'') \<Rightarrow> (Returned s', w''))))"

subsection \<open>The command line\<close>

text \<open>
  \<^verbatim>\<open>__init__\<close>: the three \<^verbatim>\<open>mkdir(exist_ok=True)\<close>, none of them caught.
\<close>

definition mkdir :: "responder \<Rightarrow> path \<Rightarrow> world \<Rightarrow> string option \<times> world" where
  "mkdir orc p w =
     (case perform orc (Mkdir p) w of
        (Response code text, w') \<Rightarrow> (None, w')
      | (Raised e, w') \<Rightarrow> (Some e, w'))"

definition init_pipeline ::
  "'r env \<Rightarrow> string \<Rightarrow> string option \<Rightarrow> world \<Rightarrow> (string + config \<times> stats) \<times> world" where
  "init_pipeline env out_dir mail w =
     (case mkdir (responder env) [out_dir] w of
        (Some e, w1) \<Rightarrow> (Inl e, w1)
      | (None, w1) \<Rightarrow>
          (case mkdir (responder env) [out_dir, ''sequences''] w1 of
             (Some e, w2) \<Rightarrow> (Inl e, w2)
           | (None, w2) \<Rightarrow>
               (case mkdir (responder env) [out_dir, ''interproscan_results''] w2 of
                  (Some e, w3) \<Rightarrow> (Inl e, w3)
                | (None, w3) \<Rightarrow>
                    (Inr (\<lparr>uniprot_base_url = ''https://rest.uniprot.org/uniprotkb/'',
                           interproscan_base_url =
                             ''https://www.ebi.ac.uk/Tools/services/rest/iprscan5'',
                           output_dir = out_dir, email = mail\<rparr>, init_stats), w3))))"

definition usage :: "string list" where
  "usage =
     [''Usage: python interproscan_pipeline.py <input_file> <output_directory> <email>'',
      newline # ''Example:'',
      ''  python interproscan_pipeline.py uniprot_ids.txt results/ your_email@example.com'',
      newline # ''Note: Email is required for InterProScan submissions'']"

text \<open>The cross mark of the message is its three bytes in UTF-8.\<close>

definition invalid_email :: "string list" where
  "invalid_email =
     [[CHR 0xE2, CHR 0x9D, CHR 0x8C] @ '' Please provide a valid email address'']"

text \<open>
  \<^verbatim>\<open>main\<close> on \<^verbatim>\<open>sys.argv\<close>: what it printed itself, and how it ended. An index
  past the end of \<^verbatim>\<open>sys.argv\<close> raises \<^verbatim>\<open>IndexError\<close>, which nothing catches.
\<close>

definition main :: "'r env \<Rightarrow> string list \<Rightarrow> world \<Rightarrow> (string list \<times> outcome) \<times> world" where
  "main env argv w =
     (if length argv < 3 then ((usage, Sys_exit 1), w)
      else
        (let input_file = argv ! 1;
             out_dir = argv ! 2 in
         if \<not> 3 < length argv then (([], Uncaught ''IndexError''), w)
         else
           (let mail = argv ! 3 in
            if CHR ''@'' \<notin> set mail \<or> CHR ''.'' \<notin> set mail
            then ((invalid_email, Sys_exit 1), w)
            else
              (case init_pipeline env out_dir (Some mail) w of
                 (Inl e, w1) \<Rightarrow> (([], Uncaught e), w1)
               | (Inr (cfg, s), w1) \<Rightarrow>
                   (case process_proteins env cfg input_file 5 s w1 of
                      (out, w2) \<Rightarrow> (([], out), w2))))))"

subsection \<open>The lock\<close>

text \<open>
  The statistics are written by \<^verbatim>\<open>increment_stat\<close> and \<^verbatim>\<open>add_error\<close> only (and
  by \<^verbatim>\<open>process_proteins\<close> once, before the pool starts). What a worker does to them
  is therefore a list of updates, each made as
  \<^verbatim>\<open>with self.lock: self.stats[stat_name] += 1\<close> or
  \<^verbatim>\<open>with self.lock: self.stats['errors'].append(error)\<close>.
\<close>

datatype update = Inc stat_name | Err string

fun apply_update :: "update \<Rightarrow> stats \<Rightarrow> stats" where
  "apply_update (Inc stat_name) s = increment_stat stat_name s"
| "apply_update (Err error) s = add_error error s"

text \<open>The updates of a worker, made one after the other.\<close>

definition apply_updates :: "update list \<Rightarrow> stats \<Rightarrow> stats" where
  "apply_updates updates s = foldl (\<lambda>s u. apply_update u s) s updates"

text \<open>\<^verbatim>\<open>self.stats[stat_name]\<close>, read and written.\<close>

fun get_stat :: "stat_name \<Rightarrow> stats \<Rightarrow> int" where
  "get_stat Total s = total_ids s"
| "get_stat Sequences_fetched s = sequences_fetched s"
| "get_stat Interproscan_submitted s = interproscan_submitted s"
| "get_stat Interproscan_completed s = interproscan_completed s"
| "get_stat Failed s = failed s"

fun set_stat :: "stat_name \<Rightarrow> int \<Rightarrow> stats \<Rightarrow> stats" where
  "set_stat Total v s = s\<lparr>total_ids := v\<rparr>"
| "set_stat Sequences_fetched v s = s\<lparr>sequences_fetched := v\<rparr>"
| "set_stat Interproscan_submitted v s = s\<lparr>interproscan_submitted := v\<rparr>"
| "set_stat Interproscan_completed v s = s\<lparr>interproscan_completed := v\<rparr>"
| "set_stat Failed v s = s\<lparr>failed := v\<rparr>"

text \<open>
  A thread between the steps of an update: outside the \<^verbatim>\<open>with\<close> block; holding the
  lock; having loaded the counter (\<^verbatim>\<open>+=\<close> loads, adds, and stores: three steps
  between which another thread may run); having stored the counter or appended the
  message. \<open>todo\<close> are the updates not yet finished, the first of them the one in
  progress, and \<open>tmp\<close> is the value loaded.
\<close>

datatype position = Outside | Locked | Loaded | Written

record thread =
  pos :: position
  todo :: "update list"
  tmp :: int

definition start_thread :: "update list \<Rightarrow> thread" where
  "start_thread updates = \<lparr>pos = Outside, todo = updates, tmp = 0\<rparr>"

text \<open>The threads, the holder of the lock if it is held, and the statistics.\<close>

type_synonym shared = "thread list \<times> nat option \<times> stats"

text \<open>
  Thread \<open>i\<close> is given the processor for one step. Acquiring the lock is possible
  only while nobody holds it; a thread that cannot move stays where it is.
\<close>

fun step :: "nat \<Rightarrow> shared \<Rightarrow> shared" where
  "step i (ts, lock, s) =
     (if length ts \<le> i then (ts, lock, s)
      else
        (let t = ts ! i in
         case todo t of
           [] \<Rightarrow> (ts, lock, s)
         | u # us \<Rightarrow>
             (case pos t of
                Outside \<Rightarrow>
                  if lock = None then (ts[i := t\<lparr>pos := Locked\<rparr>], Some i, s)
                  else (ts, lock, s)
              | Locked \<Rightarrow>
                  (case u of
                     Inc stat_name \<Rightarrow>
                       (ts[i := t\<lparr>pos := Loaded, tmp := get_stat stat_name s\<rparr>], lock, s)
                   | Err error \<Rightarrow> (ts[i := t\<lparr>pos := Written\<rparr>], lock, add_error error s))
              | Loaded \<Rightarrow>
                  (case u of
                     Inc stat_name \<Rightarrow>
                       (ts[i := t\<lparr>pos := Written\<rparr>], lock, set_stat stat_name (tmp t + 1) s)
                   | Err error \<Rightarrow> (ts, lock, s))
              | Written \<Rightarrow> (ts[i := t\<lparr>pos := Outside, todo := us\<rparr>], None, s))))"

text \<open>A schedule names the thread that runs next, step after step.\<close>

definition run_threads :: "nat list \<Rightarrow> shared \<Rightarrow> shared" where
  "run_threads schedule c = foldl (\<lambda>c i. step i c) c schedule"

definition start :: "update list list \<Rightarrow> stats \<Rightarrow> shared" where
  "start tasks s = (map start_thread tasks, None, s)"

section \<open>Notions for the statements\<close>

subsection \<open>What a run leaves in the log of calls\<close>

text \<open>
  The calls made between two worlds, and the statuses \<^verbatim>\<open>check_job_status\<close> returned
  for a job among them.
\<close>

definition new_trace :: "world \<Rightarrow> world \<Rightarrow> (call \<times> reply) list" where
  "new_trace w w' = drop (length (trace w)) (trace w')"

definition observed_statuses :: "config \<Rightarrow> string \<Rightarrow> (call \<times> reply) list \<Rightarrow> string list" where
  "observed_statuses cfg job_id tr =
     map (\<lambda>(c, r). status_of_reply r) (filter (\<lambda>(c, r). c = Get (status_url cfg job_id)) tr)"

text \<open>The statuses on which the loop of \<^verbatim>\<open>wait_for_completion\<close> returns.\<close>

definition terminal :: "string \<Rightarrow> bool" where
  "terminal status = (status = ''FINISHED'' \<or> status = ''ERROR'' \<or> status = ''FAILURE'')"

text \<open>The calls of the wait for a job, and those of saving the results of a protein.\<close>

definition wait_call :: "config \<Rightarrow> string \<Rightarrow> call \<Rightarrow> bool" where
  "wait_call cfg job_id c =
     (c = Get (status_url cfg job_id) \<or> c = Get (result_url cfg job_id)
      \<or> c = Sleep check_interval)"

fun save_call :: "config \<Rightarrow> string \<Rightarrow> call \<Rightarrow> bool" where
  "save_call cfg uniprot_id (Open_w p) =
     (p = fasta_path cfg uniprot_id \<or> p = json_path cfg uniprot_id)"
| "save_call cfg uniprot_id (Write p text) =
     (p = fasta_path cfg uniprot_id \<or> p = json_path cfg uniprot_id)"
| "save_call cfg uniprot_id c = False"

text \<open>
  The exceptions raised by the calls of a log, in the order of the calls: what
  \<^verbatim>\<open>str(e)\<close> gives for each of them.
\<close>

fun raised :: "(call \<times> reply) list \<Rightarrow> string list" where
  "raised [] = []"
| "raised ((c, Raised e) # tr) = e # raised tr"
| "raised ((c, Response code body) # tr) = raised tr"

subsection \<open>What saving leaves in the files\<close>

text \<open>
  The sequence in lines of 80 characters, and the whole sequence file: what the loop of
  \<^verbatim>\<open>save_results\<close> writes when no write fails.
\<close>

function fasta_lines :: "string \<Rightarrow> string" where
  "fasta_lines sequence =
     (if sequence = [] then []
      else take 80 sequence @ [newline] @ fasta_lines (drop 80 sequence))"
  by pat_completeness auto
termination
  by (relation "measure length") auto

definition fasta_text :: "string \<Rightarrow> string \<Rightarrow> string" where
  "fasta_text description sequence = ''>'' @ description @ [newline] @ fasta_lines sequence"

subsection \<open>Accounting for the updates of the threads\<close>

text \<open>How often an update has been made: the counter, or the copies of the message.\<close>

fun made :: "update \<Rightarrow> stats \<Rightarrow> int" where
  "made (Inc stat_name) s = get_stat stat_name s"
| "made (Err error) s = int (count_list (errors s) error)"

text \<open>How often a thread has still to make it.\<close>

definition pending :: "update \<Rightarrow> thread \<Rightarrow> int" where
  "pending u t = int (count_list (todo t) u)
     - (if pos t = Written \<and> todo t \<noteq> [] \<and> hd (todo t) = u then 1 else 0)"

definition account :: "update \<Rightarrow> shared \<Rightarrow> int" where
  "account u c = (case c of (ts, lock, s) \<Rightarrow> made u s + sum_list (map (pending u) ts))"

text \<open>
  What holds of every state the threads reach: a thread inside the block holds the lock
  and has an update in progress, a loaded value is the current one, and the holder of
  the lock is inside the block.
\<close>

definition lock_inv :: "shared \<Rightarrow> bool" where
  "lock_inv c = (case c of (ts, lock, s) \<Rightarrow>
     (\<forall>i < length ts. pos (ts ! i) \<noteq> Outside \<longrightarrow> lock = Some i \<and> todo (ts ! i) \<noteq> [])
   \<and> (\<forall>i < length ts. pos (ts ! i) = Loaded \<longrightarrow>
         (\<exists>stat_name. hd (todo (ts ! i)) = Inc stat_name
            \<and> tmp (ts ! i) = get_stat stat_name s))
   \<and> (\<forall>i. lock = Some i \<longrightarrow> i < length ts \<and> pos (ts ! i) \<noteq> Outside))"

text \<open>The steps a thread has still to take.\<close>

fun cost :: "update \<Rightarrow> nat" where
  "cost (Inc stat_name) = 4"
| "cost (Err error) = 3"

definition thread_work :: "thread \<Rightarrow> nat" where
  "thread_work t = sum_list (map cost (todo t))
     - (case pos t of Outside \<Rightarrow> 0 | Locked \<Rightarrow> 1 | Loaded \<Rightarrow> 2
        | Written \<Rightarrow> cost (hd (todo t)) - 1)"

definition work :: "shared \<Rightarrow> nat" where
  "work c = (case c of (ts, lock, s) \<Rightarrow> sum_list (map thread_work ts))"

definition finished :: "shared \<Rightarrow> bool" where
  "finished c = (case c of (ts, lock, s) \<Rightarrow> \<forall>t \<in> set ts. todo t = [])"

subsection \<open>A scripted outside world\<close>

text \<open>
  For running the functions on concrete inputs: the \<open>n\<close>-th external call gets the
  \<open>n\<close>-th entry of the script, whatever it asks, and a call past the script fails.
  A document is its text; the empty body is no document, and \<^verbatim>\<open>{}\<close> and
  \<^verbatim>\<open>null\<close> are the false documents.
\<close>

definition scripted :: "(reply \<times> real) list \<Rightarrow> responder" where
  "scripted script hist now c =
     (if length hist < length script then script ! length hist else (Raised ''no answer'', 0))"

definition test_env :: "(reply \<times> real) list \<Rightarrow> string env" where
  "test_env script = \<lparr>responder = scripted script,
     json_loads = (\<lambda>text. if text = [] then None else Some text),
     truthy = (\<lambda>doc. doc \<noteq> ''{}'' \<and> doc \<noteq> ''null''),
     json_dump = (\<lambda>doc. doc)\<rparr>"

definition test_config :: config where
  "test_config = \<lparr>uniprot_base_url = ''u/'', interproscan_base_url = ''i'',
     output_dir = ''out'', email = Some ''a@b.c''\<rparr>"

definition world0 :: world where
  "world0 = \<lparr>clock = 0, trace = [], files = Map.empty\<rparr>"

definition two_ids_script :: "(reply \<times> real) list" where
  "two_ids_script =
     [(Response 0 (''BADID'' @ [newline] @ ''P12345'' @ [newline]), 0),
      (Response 404 ''Not Found'', 1),
      (Response 200 (''>Test protein'' @ [newline] @ ''MKT'' @ [newline] @ ''AAA''), 1),
      (Response 200 ''iprscan5-R1'', 2),
      (Response 200 ''RUNNING'', 1),
      (Response 0 [], 30),
      (Response 200 (''FINISHED'' @ [newline]), 1),
      (Response 200 ''[1, 2]'', 3),
      (Response 0 [], 0), (Response 0 [], 0), (Response 0 [], 0),
      (Response 0 [], 0), (Response 0 [], 0)]"

definition finished_script :: "(reply \<times> real) list" where
  "finished_script = [(Response 200 ''FINISHED'', 1), (Response 200 ''[1, 2]'', 1)]"

definition rrf_script :: "(reply \<times> real) list" where
  "rrf_script =
     [(Response 200 ''RUNNING'', 1), (Response 0 [], 30),
      (Response 200 ''RUNNING'', 1), (Response 0 [], 30),
      (Response 200 ''FINISHED'', 1), (Response 200 ''[1, 2]'', 2)]"

definition failure_script :: "(reply \<times> real) list" where
  "failure_script =
     [(Response 200 ''RUNNING'', 1), (Response 0 [], 30), (Response 200 ''FAILURE'', 1)]"

definition running_script :: "(reply \<times> real) list" where
  "running_script =
     [(Response 200 ''RUNNING'', 1), (Response 0 [], 30),
      (Response 200 ''RUNNING'', 1), (Response 0 [], 30)]"

definition failed_job_script :: "(reply \<times> real) list" where
  "failed_job_script =
     [(Response 200 (''>Test protein'' @ [newline] @ ''MKT''), 1),
      (Response 200 ''iprscan5-R1'', 2),
      (Response 200 ''FAILURE'', 1)]"

definition queued_script :: "(reply \<times> real) list" where
  "queued_script =
     [(Response 200 ''QUEUED'', 1), (Response 0 [], 30),
      (Response 200 ''NOT_FOUND'', 1), (Response 0 [], 30)]"

definition refused_script :: "(reply \<times> real) list" where
  "refused_script = [(Raised ''Connection refused'', 5)]"

definition unavailable_script :: "(reply \<times> real) list" where
  "unavailable_script = [(Response 503 ''Service Unavailable'', 5)]"

definition saves_script :: "(reply \<times> real) list" where
  "saves_script = replicate 12 (Response 0 [], 0)"

definition long_sequence :: string where
  "long_sequence =
     ''MKTAYIAKQRQISFVKSHFSRQLEERLGLIEVQAPILSRVGDGTQDNLSGAEKAVQVKVKALPDAQFEVVHSLAKWKRQQIAATGFH''"

definition disk_full_script :: "(reply \<times> real) list" where
  "disk_full_script =
     [(Response 200 (''>Test protein'' @ [newline] @ ''MKT''), 1),
      (Response 200 ''iprscan5-R1'', 2),
      (Response 200 ''FINISHED'', 1),
      (Response 200 ''[1, 2]'', 2),
      (Raised ''No space left on device'', 0)]"

definition json_denied_script :: "(reply \<times> real) list" where
  "json_denied_script =
     [(Response 200 (''>Test protein'' @ [newline] @ ''MKT''), 1),
      (Response 200 ''iprscan5-R1'', 2),
      (Response 200 ''FINISHED'', 1),
      (Response 200 ''[1, 2]'', 2),
      (Response 0 [], 0), (Response 0 [], 0), (Response 0 [], 0),
      (Response 0 [], 0), (Raised ''Permission denied'', 0)]"

definition badid_script :: "(reply \<times> real) list" where
  "badid_script = [(Response 404 ''Not Found'', 1)]"

definition success_script :: "(reply \<times> real) list" where
  "success_script =
     [(Response 200 (''>Test protein'' @ [newline] @ ''MKT''), 1),
      (Response 200 ''iprscan5-R1'', 2),
      (Response 200 ''RUNNING'', 1),
      (Response 0 [], 30),
      (Response 200 ''FINISHED'', 1),
      (Response 200 ''[1, 2]'', 2),
      (Response 0 [], 0), (Response 0 [], 0), (Response 0 [], 0),
      (Response 0 [], 0), (Response 0 [], 0)]"

definition three_tasks :: "update list list" where
  "three_tasks = [[Inc Failed, Err ''A: Timed out''], [Inc Failed], [Inc Interproscan_completed]]"

definition three_schedule :: "nat list" where
  "three_schedule = [0, 1, 0, 2, 0, 1, 0, 1, 0, 1, 1, 1, 2, 2, 2, 2, 0, 0, 0]"

definition two_workers :: "update list list" where
  "two_workers =
     [[Err ''BADID: UniProt fetch failed - HTTP 404'', Inc Failed],
      [Inc Sequences_fetched, Inc Interproscan_submitted, Inc Interproscan_completed]]"

definition two_workers_schedule :: "nat list" where
  "two_workers_schedule =
     [0, 1, 0, 1, 0, 1, 0, 1, 1, 0, 1, 0, 0, 1, 0, 0, 1, 1, 1, 1, 1, 1, 1, 1]"

section \<open>Lemmas\<close>

subsection \<open>Evaluation and bookkeeping\<close>

lemmas stage_defs =
  fetch_uniprot_sequence_def submit_to_interproscan_def check_job_status_def
  get_interproscan_results_def wait_for_completion_def sleep_def save_results_def
  write_fasta_def write_json_def open_w_def fwrite_def fasta_path_def json_path_def
  process_single_protein_def read_uniprot_ids_def process_proteins_def readlines_def
  status_url_def result_url_def check_interval_def default_max_wait_def

lemmas world_defs =
  perform_def scripted_def test_env_def test_config_def world0_def init_stats_def
  add_error_def strip_def isspace_def newline_def str_int_def digit_char_def Let_def

declare wait_loop.simps [simp del]

declare write_lines.simps [simp del]

declare fasta_lines.simps [simp del]

declare step.simps [simp del]

lemma add_error_counters [simp]:
  "total_ids (add_error e s) = total_ids s"
  "sequences_fetched (add_error e s) = sequences_fetched s"
  "interproscan_submitted (add_error e s) = interproscan_submitted s"
  "interproscan_completed (add_error e s) = interproscan_completed s"
  "failed (add_error e s) = failed s"
  "errors (add_error e s) = errors s @ [e]"
  by (simp_all add: add_error_def)

lemma fetch_counters:
  "fetch_uniprot_sequence env cfg uniprot_id s w = (r, s', w') \<Longrightarrow>
     interproscan_completed s' = interproscan_completed s \<and> failed s' = failed s
       \<and> total_ids s' = total_ids s"
  by (auto simp: fetch_uniprot_sequence_def Let_def split: prod.splits reply.splits if_splits)

lemma submit_counters:
  "submit_to_interproscan env cfg uniprot_id sq s w = (r, s', w') \<Longrightarrow>
     interproscan_completed s' = interproscan_completed s \<and> failed s' = failed s
       \<and> total_ids s' = total_ids s"
  by (auto simp: submit_to_interproscan_def Let_def split: prod.splits reply.splits if_splits)

lemma wait_loop_induct [case_names step]:
  assumes step: "\<And>env cfg job_id max_wait start_time w.
     (\<And>status w1. clock w - start_time < of_int max_wait \<Longrightarrow>
        check_job_status env cfg job_id w = (status, w1) \<Longrightarrow>
        status \<noteq> ''FINISHED'' \<Longrightarrow> status \<noteq> ''ERROR'' \<Longrightarrow> status \<noteq> ''FAILURE'' \<Longrightarrow>
        P env cfg job_id max_wait start_time (sleep env check_interval w1))
     \<Longrightarrow> P env cfg job_id max_wait start_time w"
  shows "P env cfg job_id max_wait start_time w"
proof (rule wait_loop.induct
    [of "\<lambda>env cfg job_id uniprot_id max_wait start_time s w. P env cfg job_id max_wait start_time w"
        env cfg job_id "[]" max_wait start_time init_stats w], goal_cases)
  case (1 env cfg job_id uniprot_id max_wait start_time s w)
  show ?case
  proof (rule step)
    fix status w1
    assume a: "clock w - start_time < of_int max_wait"
      "check_job_status env cfg job_id w = (status, w1)"
      "status \<noteq> ''FINISHED''" "status \<noteq> ''ERROR''" "status \<noteq> ''FAILURE''"
    show "P env cfg job_id max_wait start_time (sleep env check_interval w1)"
    proof (cases "status = ''RUNNING''")
      case True
      show ?thesis by (rule 1(1) [OF a(1) a(2) [symmetric] a(3)]) (use a True in auto)
    next
      case False
      show ?thesis by (rule 1(2) [OF a(1) a(2) [symmetric] a(3)]) (use a False in auto)
    qed
  qed
qed

lemma wait_loop_continue:
  assumes "clock w - start_time < of_int max_wait"
    and "check_job_status env cfg job_id w = (status, w1)"
    and "status \<noteq> ''FINISHED''" "status \<noteq> ''ERROR''" "status \<noteq> ''FAILURE''"
  shows "wait_loop env cfg job_id uniprot_id max_wait start_time s w =
         wait_loop env cfg job_id uniprot_id max_wait start_time s (sleep env check_interval w1)"
  using assms by (subst wait_loop.simps) simp

lemma wait_loop_counters:
  "wait_loop env cfg job_id uniprot_id max_wait start_time s w = (r, s', w') \<Longrightarrow>
     (case r of
        None \<Rightarrow> interproscan_completed s' = interproscan_completed s
      | Some results \<Rightarrow> truthy env results
          \<and> interproscan_completed s' = interproscan_completed s + 1)
     \<and> failed s' = failed s \<and> total_ids s' = total_ids s"
proof (induction env cfg job_id max_wait start_time w rule: wait_loop_induct)
  case (step env cfg job_id max_wait start_time w)
  show ?case
  proof (cases "clock w - start_time < of_int max_wait")
    case False
    with step.prems show ?thesis by (subst (asm) wait_loop.simps) auto
  next
    case True
    obtain status w1 where c: "check_job_status env cfg job_id w = (status, w1)"
      by (cases "check_job_status env cfg job_id w")
    show ?thesis
    proof (cases "status = ''FINISHED'' \<or> status = ''ERROR'' \<or> status = ''FAILURE''")
      case True
      with step.prems \<open>clock w - start_time < of_int max_wait\<close> c show ?thesis
        by (subst (asm) wait_loop.simps) (auto split: prod.splits option.splits if_splits)
    next
      case False
      then have n: "status \<noteq> ''FINISHED''" "status \<noteq> ''ERROR''" "status \<noteq> ''FAILURE''"
        by auto
      from step.prems wait_loop_continue [OF True c n]
      have "wait_loop env cfg job_id uniprot_id max_wait start_time s
              (sleep env check_interval w1) = (r, s', w')" by simp
      from step.IH [OF True c n this] show ?thesis .
    qed
  qed
qed

lemma save_counters:
  "save_results env cfg uniprot_id sq d results s w = (s', w') \<Longrightarrow>
     interproscan_completed s' = interproscan_completed s \<and> failed s' = failed s
       \<and> total_ids s' = total_ids s"
  by (auto simp: save_results_def split: prod.splits option.splits)

lemma process_single_protein_counters:
  assumes "process_single_protein env cfg uniprot_id s w = (success, s', w')"
  shows "total_ids s' = total_ids s \<and>
     (if success
      then interproscan_completed s' = interproscan_completed s + 1 \<and> failed s' = failed s
      else interproscan_completed s' = interproscan_completed s \<and> failed s' = failed s + 1)"
proof (cases "fetch_uniprot_sequence env cfg uniprot_id s w")
  case f: (fields r1 s1 w1)
  note c1 = fetch_counters [OF f]
  show ?thesis
  proof (cases r1)
    case None
    with assms f c1 show ?thesis by (auto simp: process_single_protein_def)
  next
    case (Some sd)
    obtain sq d where sd: "sd = (sq, d)" by (cases sd)
    show ?thesis
    proof (cases "submit_to_interproscan env cfg uniprot_id sq s1 w1")
      case sb: (fields r2 s2 w2)
      note c2 = submit_counters [OF sb]
      show ?thesis
      proof (cases "r2 = None \<or> r2 = Some []")
        case True
        with assms f Some sd sb c1 c2 show ?thesis
          by (auto simp: process_single_protein_def)
      next
        case False
        then obtain job_id where j: "r2 = Some job_id" "job_id \<noteq> []" by auto
        show ?thesis
        proof (cases "wait_for_completion env cfg job_id uniprot_id default_max_wait s2 w2")
          case wt: (fields r3 s3 w3)
          note c3 = wait_loop_counters [OF wt [unfolded wait_for_completion_def Let_def]]
          show ?thesis
          proof (cases r3)
            case None
            with assms f Some sd sb j wt c1 c2 c3 show ?thesis
              by (auto simp: process_single_protein_def)
          next
            case (Some results)
            obtain s4 w4 where sv:
              "save_results env cfg uniprot_id sq d results s3 w3 = (s4, w4)"
              by (cases "save_results env cfg uniprot_id sq d results s3 w3")
            note c4 = save_counters [OF sv]
            from assms f \<open>r1 = Some sd\<close> sd sb j wt Some sv c1 c2 c3 c4 show ?thesis
              by (auto simp: process_single_protein_def)
          qed
        qed
      qed
    qed
  qed
qed

lemma process_all_counters:
  "process_all env cfg uniprot_ids s w = (s', w') \<Longrightarrow>
     total_ids s' = total_ids s \<and>
     interproscan_completed s' + failed s'
       = interproscan_completed s + failed s + int (length uniprot_ids)"
proof (induction uniprot_ids arbitrary: s w)
  case Nil
  then show ?case by simp
next
  case (Cons uniprot_id uniprot_ids)
  obtain success s1 w1 where p: "process_single_protein env cfg uniprot_id s w = (success, s1, w1)"
    by (cases "process_single_protein env cfg uniprot_id s w")
  from Cons.prems p have r: "process_all env cfg uniprot_ids s1 w1 = (s', w')" by simp
  from Cons.IH [OF r] process_single_protein_counters [OF p] show ?case
    by (auto split: if_splits)
qed

subsection \<open>The outcome of the wait, from the statuses it saw\<close>

lemma perform_trace:
  "perform orc c w = (r, w') \<Longrightarrow> trace w' = trace w @ [(c, r)] \<and> files w' = files w"
  by (auto simp: perform_def split: prod.splits)

lemma perform_clock:
  "perform orc c w = (r, w') \<Longrightarrow> clock w + min_duration c \<le> clock w'"
  by (auto simp: perform_def split: prod.splits)

lemma check_job_status_trace:
  assumes "check_job_status env cfg job_id w = (status, w1)"
  obtains r where "status = status_of_reply r"
    and "trace w1 = trace w @ [(Get (status_url cfg job_id), r)]"
    and "perform (responder env) (Get (status_url cfg job_id)) w = (r, w1)"
  using assms by (auto simp: check_job_status_def split: prod.splits dest: perform_trace)

lemma get_interproscan_results_trace:
  assumes "get_interproscan_results env cfg job_id w = (res, w1)"
  obtains r where "res = results_of_reply env r"
    and "trace w1 = trace w @ [(Get (result_url cfg job_id), r)]"
  using assms by (auto simp: get_interproscan_results_def split: prod.splits dest: perform_trace)

lemma sleep_trace:
  obtains r where "trace (sleep env n w) = trace w @ [(Sleep n, r)]"
  by (cases "perform (responder env) (Sleep n) w") (auto simp: sleep_def dest: perform_trace)

lemma status_url_neq_result_url [simp]:
  "status_url cfg job_id \<noteq> result_url cfg job_id"
  "result_url cfg job_id \<noteq> status_url cfg job_id"
  by (simp_all add: status_url_def result_url_def)

lemma observed_statuses_simps [simp]:
  "observed_statuses cfg job_id [] = []"
  "observed_statuses cfg job_id ((Get (status_url cfg job_id), r) # tr)
     = status_of_reply r # observed_statuses cfg job_id tr"
  "observed_statuses cfg job_id ((Get (result_url cfg job_id), r) # tr)
     = observed_statuses cfg job_id tr"
  "observed_statuses cfg job_id ((Sleep n, r) # tr) = observed_statuses cfg job_id tr"
  "observed_statuses cfg job_id (tr @ tr')
     = observed_statuses cfg job_id tr @ observed_statuses cfg job_id tr'"
  by (simp_all add: observed_statuses_def)

lemma wait_loop_outcome:
  assumes "wait_loop env cfg job_id uniprot_id max_wait start_time s w = (res, s', w')"
  shows "\<exists>ext. trace w' = trace w @ ext \<and>
     (\<forall>status \<in> set (butlast (observed_statuses cfg job_id ext)). \<not> terminal status) \<and>
     (if observed_statuses cfg job_id ext = []
         \<or> \<not> terminal (last (observed_statuses cfg job_id ext))
      then res = None \<and> of_int max_wait \<le> clock w' - start_time
        \<and> s' = add_error (uniprot_id @ '': Timed out after '' @ str_int max_wait
                           @ '' seconds'') s
      else if last (observed_statuses cfg job_id ext) = ''FINISHED''
      then fst (last ext) = Get (result_url cfg job_id)
        \<and> (case results_of_reply env (snd (last ext)) of
             None \<Rightarrow> res = None
               \<and> s' = add_error (uniprot_id @ '': Failed to retrieve results'') s
           | Some results \<Rightarrow>
               if truthy env results
               then res = Some results \<and> s' = increment_stat Interproscan_completed s
               else res = None
                 \<and> s' = add_error (uniprot_id @ '': Failed to retrieve results'') s)
      else res = None
        \<and> s' = add_error (uniprot_id @ '': Job failed with status ''
                           @ last (observed_statuses cfg job_id ext)) s)"
  using assms
proof (induction env cfg job_id max_wait start_time w rule: wait_loop_induct)
  case (step env cfg job_id max_wait start_time w)
  show ?case
  proof (cases "clock w - start_time < of_int max_wait")
    case False
    with step.prems have "res = None" "w' = w"
      "s' = add_error (uniprot_id @ '': Timed out after '' @ str_int max_wait @ '' seconds'') s"
      by (subst (asm) wait_loop.simps; simp)+
    with False show ?thesis by (intro exI [of _ "[]"]) simp
  next
    case True
    obtain status w1 where c: "check_job_status env cfg job_id w = (status, w1)"
      by (cases "check_job_status env cfg job_id w")
    from c obtain r where r: "status = status_of_reply r"
      "trace w1 = trace w @ [(Get (status_url cfg job_id), r)]"
      by (rule check_job_status_trace)
    show ?thesis
    proof (cases "terminal status")
      case False
      then have n: "status \<noteq> ''FINISHED''" "status \<noteq> ''ERROR''" "status \<noteq> ''FAILURE''"
        by (auto simp: terminal_def)
      let ?w2 = "sleep env check_interval w1"
      from step.prems wait_loop_continue [OF True c n]
      have "wait_loop env cfg job_id uniprot_id max_wait start_time s ?w2 = (res, s', w')"
        by simp
      from step.IH [OF True c n this] obtain ext where ext: "trace w' = trace ?w2 @ ext"
        and b: "\<forall>status \<in> set (butlast (observed_statuses cfg job_id ext)). \<not> terminal status"
        and o: "if observed_statuses cfg job_id ext = []
                   \<or> \<not> terminal (last (observed_statuses cfg job_id ext))
          then res = None \<and> of_int max_wait \<le> clock w' - start_time
            \<and> s' = add_error (uniprot_id @ '': Timed out after '' @ str_int max_wait
                           @ '' seconds'') s
          else if last (observed_statuses cfg job_id ext) = ''FINISHED''
          then fst (last ext) = Get (result_url cfg job_id)
            \<and> (case results_of_reply env (snd (last ext)) of
             None \<Rightarrow> res = None
               \<and> s' = add_error (uniprot_id @ '': Failed to retrieve results'') s
           | Some results \<Rightarrow>
               if truthy env results
               then res = Some results \<and> s' = increment_stat Interproscan_completed s
               else res = None
                 \<and> s' = add_error (uniprot_id @ '': Failed to retrieve results'') s)
          else res = None
            \<and> s' = add_error (uniprot_id @ '': Job failed with status ''
                           @ last (observed_statuses cfg job_id ext)) s"
        by blast
      obtain sr where sr: "trace ?w2 = trace w1 @ [(Sleep check_interval, sr)]"
        by (rule sleep_trace)
      let ?ext = "(Get (status_url cfg job_id), r) # (Sleep check_interval, sr) # ext"
      let ?obs = "observed_statuses cfg job_id ext"
      have t: "trace w' = trace w @ ?ext" using ext sr r by simp
      have obs: "observed_statuses cfg job_id ?ext = status # ?obs" using r by simp
      have b': "\<forall>x \<in> set (butlast (status # ?obs)). \<not> terminal x"
        using b False by (cases "?obs = []") auto
      show ?thesis
      proof (cases "?obs = []")
        case e: True
        with o False b' t obs show ?thesis
          by (intro exI [of _ ?ext]) (simp del: observed_statuses_simps)
      next
        case ne: False
        then have l: "last (status # ?obs) = last ?obs" by simp
        have lx: "ext \<noteq> []" using ne by auto
        from o ne b' t obs l lx show ?thesis
          by (intro exI [of _ ?ext]) (simp del: observed_statuses_simps)
      qed
    next
      case t: True
      show ?thesis
      proof (cases "status = ''FINISHED''")
        case f: True
        obtain rs w2 where g: "get_interproscan_results env cfg job_id w1 = (rs, w2)"
          by (cases "get_interproscan_results env cfg job_id w1")
        from g obtain rr where rr: "rs = results_of_reply env rr"
          "trace w2 = trace w1 @ [(Get (result_url cfg job_id), rr)]"
          by (rule get_interproscan_results_trace)
        let ?ext = "[(Get (status_url cfg job_id), r), (Get (result_url cfg job_id), rr)]"
        have tr: "trace w2 = trace w @ ?ext" using r rr by simp
        have obs: "observed_statuses cfg job_id ?ext = [status]" using r by simp
        from step.prems True c f g rr(1)
        have "w' = w2 \<and> (case results_of_reply env rr of
             None \<Rightarrow> res = None
               \<and> s' = add_error (uniprot_id @ '': Failed to retrieve results'') s
           | Some results \<Rightarrow>
               if truthy env results
               then res = Some results \<and> s' = increment_stat Interproscan_completed s
               else res = None
                 \<and> s' = add_error (uniprot_id @ '': Failed to retrieve results'') s)"
          by (subst (asm) wait_loop.simps) (auto split: option.splits if_splits)
        with tr obs f t show ?thesis
          by (intro exI [of _ ?ext]) (simp del: observed_statuses_simps)
      next
        case nf: False
        with t have ef: "status = ''ERROR'' \<or> status = ''FAILURE''" by (simp add: terminal_def)
        let ?ext = "[(Get (status_url cfg job_id), r)]"
        have obs: "observed_statuses cfg job_id ?ext = [status]" using r by simp
        from step.prems True c nf ef
        have "w' = w1 \<and> res = None
          \<and> s' = add_error (uniprot_id @ '': Job failed with status '' @ status) s"
          by (subst (asm) wait_loop.simps) auto
        with r(2) obs nf t show ?thesis
          by (intro exI [of _ ?ext]) (simp del: observed_statuses_simps)
      qed
    qed
  qed
qed

lemma wait_for_completion_outcome:
  assumes "wait_for_completion env cfg job_id uniprot_id max_wait s w = (res, s', w')"
  shows "trace w' = trace w @ new_trace w w' \<and>
     (\<forall>status \<in> set (butlast (observed_statuses cfg job_id (new_trace w w'))).
         \<not> terminal status) \<and>
     (if observed_statuses cfg job_id (new_trace w w') = []
         \<or> \<not> terminal (last (observed_statuses cfg job_id (new_trace w w')))
      then res = None \<and> of_int max_wait \<le> clock w' - clock w
        \<and> s' = add_error (uniprot_id @ '': Timed out after '' @ str_int max_wait
                           @ '' seconds'') s
      else if last (observed_statuses cfg job_id (new_trace w w')) = ''FINISHED''
      then fst (last (new_trace w w')) = Get (result_url cfg job_id)
        \<and> (case results_of_reply env (snd (last (new_trace w w'))) of
             None \<Rightarrow> res = None
               \<and> s' = add_error (uniprot_id @ '': Failed to retrieve results'') s
           | Some results \<Rightarrow>
               if truthy env results
               then res = Some results \<and> s' = increment_stat Interproscan_completed s
               else res = None
                 \<and> s' = add_error (uniprot_id @ '': Failed to retrieve results'') s)
      else res = None
        \<and> s' = add_error (uniprot_id @ '': Job failed with status ''
                           @ last (observed_statuses cfg job_id (new_trace w w'))) s)"
proof -
  from assms have "wait_loop env cfg job_id uniprot_id max_wait (clock w) s w = (res, s', w')"
    by (simp add: wait_for_completion_def)
  from wait_loop_outcome [OF this] obtain ext where r: "trace w' = trace w @ ext \<and>
     (\<forall>status \<in> set (butlast (observed_statuses cfg job_id ext)). \<not> terminal status) \<and>
     (if observed_statuses cfg job_id ext = []
         \<or> \<not> terminal (last (observed_statuses cfg job_id ext))
      then res = None \<and> of_int max_wait \<le> clock w' - clock w
        \<and> s' = add_error (uniprot_id @ '': Timed out after '' @ str_int max_wait
                           @ '' seconds'') s
      else if last (observed_statuses cfg job_id ext) = ''FINISHED''
      then fst (last ext) = Get (result_url cfg job_id)
        \<and> (case results_of_reply env (snd (last ext)) of
             None \<Rightarrow> res = None
               \<and> s' = add_error (uniprot_id @ '': Failed to retrieve results'') s
           | Some results \<Rightarrow>
               if truthy env results
               then res = Some results \<and> s' = increment_stat Interproscan_completed s
               else res = None
                 \<and> s' = add_error (uniprot_id @ '': Failed to retrieve results'') s)
      else res = None
        \<and> s' = add_error (uniprot_id @ '': Job failed with status ''
                           @ last (observed_statuses cfg job_id ext)) s)"
    by (rule exE)
  then have e: "trace w' = trace w @ ext" by (rule conjunct1)
  from e have "new_trace w w' = ext" by (simp add: new_trace_def)
  with r show ?thesis by simp
qed

lemma process_after_wait:
  assumes "fetch_uniprot_sequence env cfg uniprot_id s0 w0 = (Some (sq, d), s1, w1)"
    and "submit_to_interproscan env cfg uniprot_id sq s1 w1 = (Some job_id, s2, w2)"
    and "job_id \<noteq> []"
    and "wait_for_completion env cfg job_id uniprot_id default_max_wait s2 w2 = (res, s3, w3)"
  shows "process_single_protein env cfg uniprot_id s0 w0 =
     (case res of
        None \<Rightarrow> (False, increment_stat Failed s3, w3)
      | Some results \<Rightarrow>
          (True, save_results env cfg uniprot_id sq d results s3 w3))"
proof (cases res)
  case None
  with assms show ?thesis by (simp add: process_single_protein_def)
next
  case (Some results)
  from assms(4) [unfolded wait_for_completion_def Let_def] Some
  have "truthy env results" by (auto dest: wait_loop_counters)
  with assms Some show ?thesis by (simp add: process_single_protein_def split: prod.splits)
qed

subsection \<open>What saving writes\<close>

lemma open_w_effect:
  assumes "open_w orc p w = (e, w')"
  obtains r where "trace w' = trace w @ [(Open_w p, r)]"
    and "e = None \<longrightarrow> files w' = (files w)(p \<mapsto> [])"
    and "e \<noteq> None \<longrightarrow> files w' = files w"
  using assms
  by (auto simp: open_w_def split: prod.splits reply.splits dest!: perform_trace)

lemma fwrite_effect:
  assumes "fwrite orc p text w = (e, w')"
  obtains r where "trace w' = trace w @ [(Write p text, r)]"
    and "e = None \<longrightarrow> files w' =
      (files w)(p \<mapsto> (case files w p of None \<Rightarrow> text | Some old \<Rightarrow> old @ text))"
    and "e \<noteq> None \<longrightarrow> files w' = files w"
  using assms
  by (auto simp: fwrite_def split: prod.splits reply.splits dest!: perform_trace)

lemma write_lines_effect:
  assumes "write_lines orc p sequence w = (e, w')"
  shows "\<exists>ext. trace w' = trace w @ ext
     \<and> (\<forall>(c, r) \<in> set ext. \<exists>text. c = Write p text)
     \<and> (\<forall>q. q \<noteq> p \<longrightarrow> files w' q = files w q)
     \<and> (e = None \<longrightarrow> (\<forall>old. files w p = Some old
            \<longrightarrow> files w' p = Some (old @ fasta_lines sequence)))"
  using assms
proof (induction orc p sequence w rule: write_lines.induct)
  case (1 orc p sequence w)
  show ?case
  proof (cases "sequence = []")
    case True
    with "1.prems" have "e = None" "w' = w" by (simp_all add: write_lines.simps)
    with True show ?thesis by (simp add: fasta_lines.simps)
  next
    case False
    obtain e1 w1 where f: "fwrite orc p (take 80 sequence @ [newline]) w = (e1, w1)"
      by (cases "fwrite orc p (take 80 sequence @ [newline]) w")
    from f obtain r where t1: "trace w1 = trace w @ [(Write p (take 80 sequence @ [newline]), r)]"
      and f1: "e1 = None \<longrightarrow> files w1 = (files w)(p \<mapsto>
         (case files w p of None \<Rightarrow> take 80 sequence @ [newline]
          | Some old \<Rightarrow> old @ take 80 sequence @ [newline]))"
      and f2: "e1 \<noteq> None \<longrightarrow> files w1 = files w"
      by (rule fwrite_effect)
    show ?thesis
    proof (cases e1)
      case (Some x)
      with "1.prems" False f have "e = Some x" "w' = w1"
        by (simp_all add: write_lines.simps)
      with t1 f2 Some show ?thesis by simp
    next
      case None
      with "1.prems" False f have r: "write_lines orc p (drop 80 sequence) w1 = (e, w')"
        by (simp add: write_lines.simps)
      from "1.IH" [OF False f [symmetric] _ r] None
      obtain ext where ext: "trace w' = trace w1 @ ext"
        and w: "\<forall>(c, r) \<in> set ext. \<exists>text. c = Write p text"
        and o: "\<forall>q. q \<noteq> p \<longrightarrow> files w' q = files w1 q"
        and c: "e = None \<longrightarrow> (\<forall>old. files w1 p = Some old
            \<longrightarrow> files w' p = Some (old @ fasta_lines (drop 80 sequence)))"
        by auto
      have fl: "fasta_lines sequence
          = take 80 sequence @ [newline] @ fasta_lines (drop 80 sequence)"
        using False by (subst fasta_lines.simps) simp
      from ext t1 w o c f1 None fl show ?thesis
        by (intro exI [of _ "(Write p (take 80 sequence @ [newline]), r) # ext"]) auto
    qed
  qed
qed

lemma write_fasta_effect:
  assumes "write_fasta orc p description sequence w = (e, w')"
  shows "\<exists>ext. trace w' = trace w @ ext \<and> ext \<noteq> []
     \<and> (\<forall>(c, r) \<in> set ext. c = Open_w p \<or> (\<exists>text. c = Write p text))
     \<and> (\<forall>q. q \<noteq> p \<longrightarrow> files w' q = files w q)
     \<and> (e = None \<longrightarrow> files w' p = Some (fasta_text description sequence))"
proof -
  obtain e1 w1 where o: "open_w orc p w = (e1, w1)" by (cases "open_w orc p w")
  from o obtain r1 where t1: "trace w1 = trace w @ [(Open_w p, r1)]"
    and o1: "e1 = None \<longrightarrow> files w1 = (files w)(p \<mapsto> [])"
    and o2: "e1 \<noteq> None \<longrightarrow> files w1 = files w"
    by (rule open_w_effect)
  show ?thesis
  proof (cases e1)
    case (Some x)
    with assms o have "e = Some x" "w' = w1" by (simp_all add: write_fasta_def)
    with t1 o2 Some show ?thesis by simp
  next
    case None
    obtain e2 w2 where f: "fwrite orc p (''>'' @ description @ [newline]) w1 = (e2, w2)"
      by (cases "fwrite orc p (''>'' @ description @ [newline]) w1")
    from f obtain r2 where
      t2: "trace w2 = trace w1 @ [(Write p (''>'' @ description @ [newline]), r2)]"
      and f1: "e2 = None \<longrightarrow> files w2 = (files w1)(p \<mapsto>
         (case files w1 p of None \<Rightarrow> ''>'' @ description @ [newline]
          | Some old \<Rightarrow> old @ ''>'' @ description @ [newline]))"
      and f2: "e2 \<noteq> None \<longrightarrow> files w2 = files w1"
      by (rule fwrite_effect)
    show ?thesis
    proof (cases e2)
      case (Some x)
      with assms o None f have "e = Some x" "w' = w2" by (simp_all add: write_fasta_def)
      with t1 t2 o1 f2 None Some show ?thesis by simp
    next
      case n2: None
      with assms o None f have l: "write_lines orc p sequence w2 = (e, w')"
        by (simp add: write_fasta_def)
      from write_lines_effect [OF l] obtain ext where ext: "trace w' = trace w2 @ ext"
        and w: "\<forall>(c, r) \<in> set ext. \<exists>text. c = Write p text"
        and q: "\<forall>q. q \<noteq> p \<longrightarrow> files w' q = files w2 q"
        and c: "e = None \<longrightarrow> (\<forall>old. files w2 p = Some old
            \<longrightarrow> files w' p = Some (old @ fasta_lines sequence))"
        by blast
      from o1 None f1 n2 have "files w2 = (files w)(p \<mapsto> ''>'' @ description @ [newline])"
        by simp
      with ext t1 t2 w q c show ?thesis
        by (intro exI [of _ "(Open_w p, r1) # (Write p (''>'' @ description @ [newline]), r2)
              # ext"]) (auto simp: fasta_text_def)
    qed
  qed
qed

lemma write_json_effect:
  assumes "write_json orc p text w = (e, w')"
  shows "\<exists>ext. trace w' = trace w @ ext \<and> ext \<noteq> []
     \<and> (\<forall>(c, r) \<in> set ext. c = Open_w p \<or> (\<exists>text. c = Write p text))
     \<and> (\<forall>q. q \<noteq> p \<longrightarrow> files w' q = files w q)
     \<and> (e = None \<longrightarrow> files w' p = Some text)"
proof -
  obtain e1 w1 where o: "open_w orc p w = (e1, w1)" by (cases "open_w orc p w")
  from o obtain r1 where t1: "trace w1 = trace w @ [(Open_w p, r1)]"
    and o1: "e1 = None \<longrightarrow> files w1 = (files w)(p \<mapsto> [])"
    and o2: "e1 \<noteq> None \<longrightarrow> files w1 = files w"
    by (rule open_w_effect)
  show ?thesis
  proof (cases e1)
    case (Some x)
    with assms o have "e = Some x" "w' = w1" by (simp_all add: write_json_def)
    with t1 o2 Some show ?thesis by simp
  next
    case None
    with assms o have f: "fwrite orc p text w1 = (e, w')" by (simp add: write_json_def)
    from f obtain r2 where t2: "trace w' = trace w1 @ [(Write p text, r2)]"
      and f1: "e = None \<longrightarrow> files w' = (files w1)(p \<mapsto>
         (case files w1 p of None \<Rightarrow> text | Some old \<Rightarrow> old @ text))"
      and f2: "e \<noteq> None \<longrightarrow> files w' = files w1"
      by (rule fwrite_effect)
    from t1 t2 o1 None f1 f2 show ?thesis
      by (intro exI [of _ "[(Open_w p, r1), (Write p text, r2)]"]) (cases e; auto)
  qed
qed

lemma add_error_neq [simp]: "add_error e s \<noteq> s" "s \<noteq> add_error e s"
proof -
  have "errors (add_error e s) \<noteq> errors s" by simp
  then show "add_error e s \<noteq> s" "s \<noteq> add_error e s" by metis+
qed

lemma fasta_path_neq_json_path [simp]:
  "fasta_path cfg uniprot_id \<noteq> json_path cfg uniprot_id"
  "json_path cfg uniprot_id \<noteq> fasta_path cfg uniprot_id"
  by (simp_all add: fasta_path_def json_path_def)

lemma save_results_effect:
  assumes "save_results env cfg uniprot_id sequence description results s w = (s', w')"
  shows "\<exists>ext. trace w' = trace w @ ext \<and> ext \<noteq> []
     \<and> (\<forall>(c, r) \<in> set ext. save_call cfg uniprot_id c)
     \<and> (s' = s \<or> (\<exists>e. s' = add_error (uniprot_id @ '': Save error - '' @ e) s))
     \<and> (s' = s \<longrightarrow> files w' = (files w)
           (fasta_path cfg uniprot_id \<mapsto> fasta_text description sequence,
            json_path cfg uniprot_id \<mapsto> json_dump env results))"
proof -
  let ?fp = "fasta_path cfg uniprot_id" and ?jp = "json_path cfg uniprot_id"
  obtain e1 w1 where f: "write_fasta (responder env) ?fp description sequence w = (e1, w1)"
    by (cases "write_fasta (responder env) ?fp description sequence w")
  from write_fasta_effect [OF f] obtain ext1 where t1: "trace w1 = trace w @ ext1"
    and n1: "ext1 \<noteq> []"
    and c1: "\<forall>(c, r) \<in> set ext1. c = Open_w ?fp \<or> (\<exists>text. c = Write ?fp text)"
    and q1: "\<forall>q. q \<noteq> ?fp \<longrightarrow> files w1 q = files w q"
    and v1: "e1 = None \<longrightarrow> files w1 ?fp = Some (fasta_text description sequence)"
    by blast
  have s1: "\<forall>(c, r) \<in> set ext1. save_call cfg uniprot_id c"
    using c1 by fastforce
  show ?thesis
  proof (cases e1)
    case (Some x)
    with assms f have "s' = add_error (uniprot_id @ '': Save error - '' @ x) s" "w' = w1"
      by (simp_all add: save_results_def)
    with t1 n1 s1 show ?thesis by (intro exI [of _ ext1]) auto
  next
    case None
    obtain e2 w2 where j: "write_json (responder env) ?jp (json_dump env results) w1 = (e2, w2)"
      by (cases "write_json (responder env) ?jp (json_dump env results) w1")
    from write_json_effect [OF j] obtain ext2 where t2: "trace w2 = trace w1 @ ext2"
      and c2: "\<forall>(c, r) \<in> set ext2. c = Open_w ?jp \<or> (\<exists>text. c = Write ?jp text)"
      and q2: "\<forall>q. q \<noteq> ?jp \<longrightarrow> files w2 q = files w1 q"
      and v2: "e2 = None \<longrightarrow> files w2 ?jp = Some (json_dump env results)"
      by blast
    have s2: "\<forall>(c, r) \<in> set ext2. save_call cfg uniprot_id c"
      using c2 by fastforce
    have t: "trace w2 = trace w @ (ext1 @ ext2)" using t1 t2 by simp
    have sc: "\<forall>(c, r) \<in> set (ext1 @ ext2). save_call cfg uniprot_id c"
      using s1 s2 by auto
    show ?thesis
    proof (cases e2)
      case (Some x)
      with assms f None j have "s' = add_error (uniprot_id @ '': Save error - '' @ x) s"
        "w' = w2" by (simp_all add: save_results_def)
      with t n1 sc show ?thesis by (intro exI [of _ "ext1 @ ext2"]) auto
    next
      case n2: None
      with assms f None j have r: "s' = s" "w' = w2" by (simp_all add: save_results_def)
      have "files w2 q = ((files w)(?fp \<mapsto> fasta_text description sequence,
            ?jp \<mapsto> json_dump env results)) q" for q
        using q1 q2 v1 v2 None n2 by (cases "q = ?jp"; cases "q = ?fp"; simp)
      then have "files w2 = (files w)(?fp \<mapsto> fasta_text description sequence,
            ?jp \<mapsto> json_dump env results)" by (rule ext)
      with r t n1 sc show ?thesis by (intro exI [of _ "ext1 @ ext2"]) auto
    qed
  qed
qed

text \<open>
  Each of the writing functions returns the exception of the call that raised, and
  \<^verbatim>\<open>save_results\<close> logs it: the error log grows by one entry for each exception raised
  during the save, of which there is at most one.
\<close>

lemma raised_append [simp]: "raised (a @ b) = raised a @ raised b"
  by (induction a rule: raised.induct) simp_all

lemma open_w_raised:
  "open_w orc p w = (e, w') \<Longrightarrow>
     \<exists>ext. trace w' = trace w @ ext \<and> raised ext = (case e of None \<Rightarrow> [] | Some x \<Rightarrow> [x])"
  by (auto simp: open_w_def split: prod.splits reply.splits dest!: perform_trace)

lemma fwrite_raised:
  "fwrite orc p body w = (e, w') \<Longrightarrow>
     \<exists>ext. trace w' = trace w @ ext \<and> raised ext = (case e of None \<Rightarrow> [] | Some x \<Rightarrow> [x])"
  by (auto simp: fwrite_def split: prod.splits reply.splits dest!: perform_trace)

lemma write_lines_raised:
  "write_lines orc p sequence w = (e, w') \<Longrightarrow>
     \<exists>ext. trace w' = trace w @ ext \<and> raised ext = (case e of None \<Rightarrow> [] | Some x \<Rightarrow> [x])"
proof (induction orc p sequence w rule: write_lines.induct)
  case (1 orc p sequence w)
  show ?case
  proof (cases "sequence = []")
    case True
    with "1.prems" show ?thesis by (simp add: write_lines.simps)
  next
    case False
    obtain e1 w1 where f: "fwrite orc p (take 80 sequence @ [newline]) w = (e1, w1)"
      by (cases "fwrite orc p (take 80 sequence @ [newline]) w")
    from fwrite_raised [OF f] obtain ext1 where t1: "trace w1 = trace w @ ext1"
      and r1: "raised ext1 = (case e1 of None \<Rightarrow> [] | Some x \<Rightarrow> [x])" by blast
    show ?thesis
    proof (cases e1)
      case (Some x)
      with "1.prems" False f have "e = Some x" "w' = w1" by (simp_all add: write_lines.simps)
      with t1 r1 Some show ?thesis by simp
    next
      case None
      with "1.prems" False f have r: "write_lines orc p (drop 80 sequence) w1 = (e, w')"
        by (simp add: write_lines.simps)
      from "1.IH" [OF False f [symmetric] _ r] None
      obtain ext where "trace w' = trace w1 @ ext"
        "raised ext = (case e of None \<Rightarrow> [] | Some x \<Rightarrow> [x])" by auto
      with t1 r1 None show ?thesis by (intro exI [of _ "ext1 @ ext"]) simp
    qed
  qed
qed

lemma write_fasta_raised:
  assumes "write_fasta orc p description sequence w = (e, w')"
  shows "\<exists>ext. trace w' = trace w @ ext \<and> raised ext = (case e of None \<Rightarrow> [] | Some x \<Rightarrow> [x])"
proof -
  obtain e1 w1 where o: "open_w orc p w = (e1, w1)" by (cases "open_w orc p w")
  from open_w_raised [OF o] obtain ext1 where t1: "trace w1 = trace w @ ext1"
    and r1: "raised ext1 = (case e1 of None \<Rightarrow> [] | Some x \<Rightarrow> [x])" by blast
  show ?thesis
  proof (cases e1)
    case (Some x)
    with assms o have "e = Some x" "w' = w1" by (simp_all add: write_fasta_def)
    with t1 r1 Some show ?thesis by simp
  next
    case None
    obtain e2 w2 where f: "fwrite orc p (''>'' @ description @ [newline]) w1 = (e2, w2)"
      by (cases "fwrite orc p (''>'' @ description @ [newline]) w1")
    from fwrite_raised [OF f] obtain ext2 where t2: "trace w2 = trace w1 @ ext2"
      and r2: "raised ext2 = (case e2 of None \<Rightarrow> [] | Some x \<Rightarrow> [x])" by blast
    show ?thesis
    proof (cases e2)
      case (Some x)
      with assms o None f have "e = Some x" "w' = w2" by (simp_all add: write_fasta_def)
      with t1 t2 r1 r2 None Some show ?thesis by (intro exI [of _ "ext1 @ ext2"]) simp
    next
      case n2: None
      with assms o None f have l: "write_lines orc p sequence w2 = (e, w')"
        by (simp add: write_fasta_def)
      from write_lines_raised [OF l] obtain ext3 where "trace w' = trace w2 @ ext3"
        "raised ext3 = (case e of None \<Rightarrow> [] | Some x \<Rightarrow> [x])" by blast
      with t1 t2 r1 r2 None n2 show ?thesis by (intro exI [of _ "ext1 @ ext2 @ ext3"]) simp
    qed
  qed
qed

lemma write_json_raised:
  assumes "write_json orc p body w = (e, w')"
  shows "\<exists>ext. trace w' = trace w @ ext \<and> raised ext = (case e of None \<Rightarrow> [] | Some x \<Rightarrow> [x])"
proof -
  obtain e1 w1 where o: "open_w orc p w = (e1, w1)" by (cases "open_w orc p w")
  from open_w_raised [OF o] obtain ext1 where t1: "trace w1 = trace w @ ext1"
    and r1: "raised ext1 = (case e1 of None \<Rightarrow> [] | Some x \<Rightarrow> [x])" by blast
  show ?thesis
  proof (cases e1)
    case (Some x)
    with assms o have "e = Some x" "w' = w1" by (simp_all add: write_json_def)
    with t1 r1 Some show ?thesis by simp
  next
    case None
    with assms o have f: "fwrite orc p body w1 = (e, w')" by (simp add: write_json_def)
    from fwrite_raised [OF f] obtain ext2 where "trace w' = trace w1 @ ext2"
      "raised ext2 = (case e of None \<Rightarrow> [] | Some x \<Rightarrow> [x])" by blast
    with t1 r1 None show ?thesis by (intro exI [of _ "ext1 @ ext2"]) simp
  qed
qed

lemma save_results_raised:
  assumes "save_results env cfg uniprot_id sequence description results s w = (s', w')"
  shows "trace w' = trace w @ new_trace w w'
     \<and> length (raised (new_trace w w')) \<le> 1
     \<and> s' = s\<lparr>errors := errors s
            @ map (\<lambda>e. uniprot_id @ '': Save error - '' @ e) (raised (new_trace w w'))\<rparr>"
proof -
  let ?fp = "fasta_path cfg uniprot_id" and ?jp = "json_path cfg uniprot_id"
  obtain e1 w1 where f: "write_fasta (responder env) ?fp description sequence w = (e1, w1)"
    by (cases "write_fasta (responder env) ?fp description sequence w")
  from write_fasta_raised [OF f] obtain ext1 where t1: "trace w1 = trace w @ ext1"
    and r1: "raised ext1 = (case e1 of None \<Rightarrow> [] | Some x \<Rightarrow> [x])" by blast
  show ?thesis
  proof (cases e1)
    case (Some x)
    with assms f have "s' = add_error (uniprot_id @ '': Save error - '' @ x) s" "w' = w1"
      by (simp_all add: save_results_def)
    with t1 r1 Some show ?thesis by (simp add: new_trace_def add_error_def)
  next
    case None
    obtain e2 w2 where j: "write_json (responder env) ?jp (json_dump env results) w1 = (e2, w2)"
      by (cases "write_json (responder env) ?jp (json_dump env results) w1")
    from write_json_raised [OF j] obtain ext2 where t2: "trace w2 = trace w1 @ ext2"
      and r2: "raised ext2 = (case e2 of None \<Rightarrow> [] | Some x \<Rightarrow> [x])" by blast
    show ?thesis
    proof (cases e2)
      case (Some x)
      with assms f None j have "s' = add_error (uniprot_id @ '': Save error - '' @ x) s"
        "w' = w2" by (simp_all add: save_results_def)
      with t1 t2 r1 r2 None Some show ?thesis by (simp add: new_trace_def add_error_def)
    next
      case n2: None
      with assms f None j have "s' = s" "w' = w2" by (simp_all add: save_results_def)
      with t1 t2 r1 r2 None n2 show ?thesis by (simp add: new_trace_def)
    qed
  qed
qed

subsection \<open>The calls of the stages\<close>

lemma fetch_trace:
  assumes "fetch_uniprot_sequence env cfg uniprot_id s w = (f, s1, w1)"
  shows "\<exists>r1. trace w1 = trace w @ [(Get (uniprot_base_url cfg @ uniprot_id @ ''.fasta''), r1)]
     \<and> (\<forall>text. r1 = Response 404 text \<longrightarrow> f = None
           \<and> s1 = add_error (uniprot_id @ '': UniProt fetch failed - HTTP 404'') s)"
proof -
  obtain r1 w' where p: "perform (responder env)
      (Get (uniprot_base_url cfg @ uniprot_id @ ''.fasta'')) w = (r1, w')"
    by (cases "perform (responder env) (Get (uniprot_base_url cfg @ uniprot_id @ ''.fasta'')) w")
  have n: "str_int 404 = ''404''" by (simp add: str_int_def digit_char_def)
  from assms p have "w1 = w'"
    by (auto simp: fetch_uniprot_sequence_def Let_def split: reply.splits if_splits)
  moreover from assms p n have "f = None
      \<and> s1 = add_error (uniprot_id @ '': UniProt fetch failed - HTTP 404'') s"
    if "r1 = Response 404 body" for body
    using that by (simp add: fetch_uniprot_sequence_def)
  ultimately show ?thesis using perform_trace [OF p] by auto
qed

lemma submit_trace:
  assumes "submit_to_interproscan env cfg uniprot_id sq s1 w1 = (j, s2, w2)"
  shows "\<exists>r2 params.
     trace w2 = trace w1 @ [(Post (interproscan_base_url cfg @ ''/run'') params, r2)]"
  using assms
  by (auto simp: submit_to_interproscan_def Let_def
           split: prod.splits reply.splits if_splits dest!: perform_trace)

lemma wait_loop_calls:
  assumes "wait_loop env cfg job_id uniprot_id max_wait start_time s w = (res, s', w')"
  shows "\<exists>ext. trace w' = trace w @ ext \<and> (\<forall>(c, r) \<in> set ext. wait_call cfg job_id c)"
  using assms
proof (induction env cfg job_id max_wait start_time w rule: wait_loop_induct)
  case (step env cfg job_id max_wait start_time w)
  show ?case
  proof (cases "clock w - start_time < of_int max_wait")
    case False
    with step.prems have "w' = w" by (subst (asm) wait_loop.simps) simp
    then show ?thesis by simp
  next
    case True
    obtain status w1 where c: "check_job_status env cfg job_id w = (status, w1)"
      by (cases "check_job_status env cfg job_id w")
    from c obtain r where r: "trace w1 = trace w @ [(Get (status_url cfg job_id), r)]"
      by (rule check_job_status_trace)
    show ?thesis
    proof (cases "terminal status")
      case False
      then have n: "status \<noteq> ''FINISHED''" "status \<noteq> ''ERROR''" "status \<noteq> ''FAILURE''"
        by (auto simp: terminal_def)
      let ?w2 = "sleep env check_interval w1"
      from step.prems wait_loop_continue [OF True c n]
      have "wait_loop env cfg job_id uniprot_id max_wait start_time s ?w2 = (res, s', w')"
        by simp
      from step.IH [OF True c n this] obtain ext where ext: "trace w' = trace ?w2 @ ext"
        "\<forall>(c, r) \<in> set ext. wait_call cfg job_id c" by blast
      obtain sr where sr: "trace ?w2 = trace w1 @ [(Sleep check_interval, sr)]"
        by (rule sleep_trace)
      from ext sr r show ?thesis
        by (intro exI [of _ "(Get (status_url cfg job_id), r) # (Sleep check_interval, sr) # ext"])
           (simp add: wait_call_def)
    next
      case t: True
      show ?thesis
      proof (cases "status = ''FINISHED''")
        case f: True
        obtain rs w2 where g: "get_interproscan_results env cfg job_id w1 = (rs, w2)"
          by (cases "get_interproscan_results env cfg job_id w1")
        from g obtain rr where rr: "trace w2 = trace w1 @ [(Get (result_url cfg job_id), rr)]"
          by (rule get_interproscan_results_trace)
        from step.prems True c f g have "w' = w2"
          by (subst (asm) wait_loop.simps) (auto split: option.splits if_splits)
        with r rr show ?thesis
          by (intro exI [of _ "[(Get (status_url cfg job_id), r),
                                (Get (result_url cfg job_id), rr)]"])
             (simp add: wait_call_def)
      next
        case nf: False
        with t have ef: "status = ''ERROR'' \<or> status = ''FAILURE''" by (simp add: terminal_def)
        from step.prems True c nf ef have "w' = w1"
          by (subst (asm) wait_loop.simps) auto
        with r show ?thesis
          by (intro exI [of _ "[(Get (status_url cfg job_id), r)]"]) (simp add: wait_call_def)
      qed
    qed
  qed
qed

subsection \<open>The command line\<close>

lemma main_command_line:
  "(length argv < 3 \<longrightarrow> main env argv w = ((usage, Sys_exit 1), w))
   \<and> (length argv = 3 \<longrightarrow> main env argv w = (([], Uncaught ''IndexError''), w))
   \<and> (3 < length argv \<and> (CHR ''@'' \<notin> set (argv ! 3) \<or> CHR ''.'' \<notin> set (argv ! 3))
        \<longrightarrow> main env argv w = ((invalid_email, Sys_exit 1), w))"
  by (simp add: main_def Let_def)

subsection \<open>Updates under the lock\<close>

lemma set_stat_increment: "set_stat n (get_stat n s + 1) s = increment_stat n s"
  by (cases n) simp_all

lemma get_stat_add_error [simp]: "get_stat n (add_error e s) = get_stat n s"
  by (cases n) simp_all

lemma made_add_error: "made u (add_error e s) = made u s + (if u = Err e then 1 else 0)"
  by (cases u) auto

lemma get_stat_set_stat [simp]:
  "get_stat m (set_stat n v s) = (if m = n then v else get_stat m s)"
  by (cases m; cases n) simp_all

lemma errors_set_stat [simp]: "errors (set_stat n v s) = errors s"
  by (cases n) simp_all

lemma made_set_stat:
  "made u (set_stat n (get_stat n s + 1) s) = made u s + (if u = Inc n then 1 else 0)"
  by (cases u) auto

lemma sum_list_map_update:
  fixes f :: "'a \<Rightarrow> int"
  assumes "i < length xs"
  shows "sum_list (map f (xs[i := x])) = sum_list (map f xs) - f (xs ! i) + f x"
  using assms
proof (induction xs arbitrary: i)
  case Nil
  then show ?case by simp
next
  case (Cons a xs)
  then show ?case by (cases i) auto
qed

lemma lock_inv_held:
  "lock_inv (ts, lock, s) \<Longrightarrow> i < length ts \<Longrightarrow> pos (ts ! i) \<noteq> Outside \<Longrightarrow>
     lock = Some i \<and> todo (ts ! i) \<noteq> []"
  unfolding lock_inv_def prod.case by blast

lemma lock_inv_loaded:
  "lock_inv (ts, lock, s) \<Longrightarrow> i < length ts \<Longrightarrow> pos (ts ! i) = Loaded \<Longrightarrow>
     \<exists>stat_name. hd (todo (ts ! i)) = Inc stat_name \<and> tmp (ts ! i) = get_stat stat_name s"
  unfolding lock_inv_def prod.case by blast

lemma lock_inv_lock:
  "lock_inv (ts, lock, s) \<Longrightarrow> lock = Some i \<Longrightarrow> i < length ts \<and> pos (ts ! i) \<noteq> Outside"
  unfolding lock_inv_def prod.case by blast

lemma lock_inv_others_outside:
  assumes "lock_inv (ts, lock, s)" and "i < length ts"
    and "lock = None \<or> pos (ts ! i) \<noteq> Outside"
    and "j < length ts" and "j \<noteq> i"
  shows "pos (ts ! j) = Outside"
proof (rule ccontr)
  assume n: "pos (ts ! j) \<noteq> Outside"
  from lock_inv_held [OF assms(1,4) n] have l: "lock = Some j" by simp
  with assms(3) have "pos (ts ! i) \<noteq> Outside" by auto
  from lock_inv_held [OF assms(1,2) this] have "lock = Some i" by simp
  with l assms(5) show False by simp
qed

lemma lock_inv_update:
  assumes "lock_inv (ts, lock, s)" and i: "i < length ts"
    and free: "lock = None \<or> pos (ts ! i) \<noteq> Outside"
    and held: "pos t' \<noteq> Outside \<longrightarrow> lock' = Some i \<and> todo t' \<noteq> []"
    and loaded: "pos t' = Loaded \<longrightarrow>
           (\<exists>stat_name. hd (todo t') = Inc stat_name \<and> tmp t' = get_stat stat_name s')"
    and released: "pos t' = Outside \<longrightarrow> lock' = None"
  shows "lock_inv (ts[i := t'], lock', s')"
proof -
  have o: "pos (ts ! j) = Outside" if "j < length ts" "j \<noteq> i" for j
    using lock_inv_others_outside [OF assms(1) i free that] .
  have 1: "lock' = Some j \<and> todo (ts[i := t'] ! j) \<noteq> []"
    if "j < length (ts[i := t'])" "pos (ts[i := t'] ! j) \<noteq> Outside" for j
  proof (cases "j = i")
    case True
    with that i held show ?thesis by simp
  next
    case False
    with that o [of j] show ?thesis by simp
  qed
  have 2: "\<exists>stat_name. hd (todo (ts[i := t'] ! j)) = Inc stat_name
            \<and> tmp (ts[i := t'] ! j) = get_stat stat_name s'"
    if "j < length (ts[i := t'])" "pos (ts[i := t'] ! j) = Loaded" for j
  proof (cases "j = i")
    case True
    with that i loaded show ?thesis by simp
  next
    case False
    with that o [of j] show ?thesis by simp
  qed
  have 3: "j < length (ts[i := t']) \<and> pos (ts[i := t'] ! j) \<noteq> Outside"
    if "lock' = Some j" for j
  proof -
    from that released have "pos t' \<noteq> Outside" by auto
    with held that i show ?thesis by simp
  qed
  show ?thesis
    unfolding lock_inv_def prod.case
  proof (intro conjI allI impI)
    fix j
    assume "j < length (ts[i := t'])" "pos (ts[i := t'] ! j) \<noteq> Outside"
    from 1 [OF this] show "lock' = Some j" "todo (ts[i := t'] ! j) \<noteq> []" by simp_all
  next
    fix j
    assume "j < length (ts[i := t'])" "pos (ts[i := t'] ! j) = Loaded"
    from 2 [OF this] show "\<exists>stat_name. hd (todo (ts[i := t'] ! j)) = Inc stat_name
            \<and> tmp (ts[i := t'] ! j) = get_stat stat_name s'" .
  next
    fix j
    assume "lock' = Some j"
    from 3 [OF this] show "j < length (ts[i := t'])" "pos (ts[i := t'] ! j) \<noteq> Outside"
      by simp_all
  qed
qed

lemma step_lock_inv:
  assumes "lock_inv c"
  shows "lock_inv (step i c)"
proof -
  obtain ts lock s where c: "c = (ts, lock, s)" by (cases c)
  show ?thesis
  proof (cases "i < length ts")
    case False
    with assms c show ?thesis by (simp add: step.simps Let_def)
  next
    case True
    note I = assms [unfolded c]
    show ?thesis
    proof (cases "todo (ts ! i)")
      case Nil
      with assms c True show ?thesis by (simp add: step.simps Let_def)
    next
      case (Cons u us)
      show ?thesis
      proof (cases "pos (ts ! i)")
        case Outside
        show ?thesis
        proof (cases lock)
          case None
          have "lock_inv (ts[i := (ts ! i)\<lparr>pos := Locked\<rparr>], Some i, s)"
            by (rule lock_inv_update [OF I True]) (simp_all add: None Cons)
          with c True Cons Outside None show ?thesis by (simp add: step.simps Let_def)
        next
          case (Some j)
          with assms c True Cons Outside show ?thesis by (simp add: step.simps Let_def)
        qed
      next
        case Locked
        with lock_inv_held [OF I True] have l: "lock = Some i" by simp
        show ?thesis
        proof (cases u)
          case (Inc n)
          have "lock_inv (ts[i := (ts ! i)\<lparr>pos := Loaded, tmp := get_stat n s\<rparr>], lock, s)"
            by (rule lock_inv_update [OF I True]) (simp_all add: Locked Cons Inc l)
          with c True Cons Locked Inc show ?thesis by (simp add: step.simps Let_def)
        next
          case (Err e)
          have "lock_inv (ts[i := (ts ! i)\<lparr>pos := Written\<rparr>], lock, add_error e s)"
            by (rule lock_inv_update [OF I True]) (simp_all add: Locked Cons l)
          with c True Cons Locked Err show ?thesis by (simp add: step.simps Let_def)
        qed
      next
        case Loaded
        with lock_inv_held [OF I True] have l: "lock = Some i" by simp
        show ?thesis
        proof (cases u)
          case (Inc n)
          have "lock_inv (ts[i := (ts ! i)\<lparr>pos := Written\<rparr>], lock,
                     set_stat n (tmp (ts ! i) + 1) s)"
            by (rule lock_inv_update [OF I True]) (simp_all add: Loaded Cons l)
          with c True Cons Loaded Inc show ?thesis by (simp add: step.simps Let_def)
        next
          case (Err e)
          with assms c True Cons Loaded show ?thesis by (simp add: step.simps Let_def)
        qed
      next
        case Written
        have "lock_inv (ts[i := (ts ! i)\<lparr>pos := Outside, todo := us\<rparr>], None, s)"
          by (rule lock_inv_update [OF I True]) (simp_all add: Written)
        with c True Cons Written show ?thesis by (simp add: step.simps Let_def)
      qed
    qed
  qed
qed

lemma pending_unchanged:
  "pos t \<noteq> Written \<Longrightarrow> p \<noteq> Written \<Longrightarrow> pending u (t\<lparr>pos := p\<rparr>) = pending u t"
  "pos t \<noteq> Written \<Longrightarrow> p \<noteq> Written \<Longrightarrow> pending u (t\<lparr>pos := p, tmp := v\<rparr>) = pending u t"
  by (simp_all add: pending_def)

lemma pending_written:
  "pos t \<noteq> Written \<Longrightarrow> todo t = u' # us \<Longrightarrow>
     pending u (t\<lparr>pos := Written\<rparr>) = pending u t - (if u = u' then 1 else 0)"
  by (auto simp: pending_def)

lemma pending_released:
  "pos t = Written \<Longrightarrow> todo t = u' # us \<Longrightarrow>
     pending u (t\<lparr>pos := Outside, todo := us\<rparr>) = pending u t"
  by (auto simp: pending_def)

lemma step_account:
  assumes "lock_inv c"
  shows "account u (step i c) = account u c"
proof -
  obtain ts lock s where c: "c = (ts, lock, s)" by (cases c)
  show ?thesis
  proof (cases "i < length ts")
    case False
    with c show ?thesis by (simp add: step.simps Let_def)
  next
    case True
    note upd = sum_list_map_update [OF True, of "pending u"]
    show ?thesis
    proof (cases "todo (ts ! i)")
      case Nil
      with c True show ?thesis by (simp add: step.simps Let_def)
    next
      case (Cons u' us)
      show ?thesis
      proof (cases "pos (ts ! i)")
        case Outside
        with c True Cons upd show ?thesis
          by (simp add: step.simps Let_def account_def pending_unchanged)
      next
        case Locked
        show ?thesis
        proof (cases u')
          case (Inc n)
          with Locked c True Cons upd show ?thesis
            by (simp add: step.simps Let_def account_def pending_unchanged)
        next
          case (Err e)
          with Locked c True Cons upd show ?thesis
            by (simp add: step.simps Let_def account_def pending_written made_add_error)
        qed
      next
        case Loaded
        show ?thesis
        proof (cases u')
          case (Inc n)
          from lock_inv_loaded [OF assms [unfolded c] True Loaded] Cons Inc
          have "tmp (ts ! i) = get_stat n s" by simp
          with Inc Loaded c True Cons upd show ?thesis
            by (simp add: step.simps Let_def account_def pending_written made_set_stat)
        next
          case (Err e)
          with Loaded c True Cons show ?thesis by (simp add: step.simps Let_def)
        qed
      next
        case Written
        with c True Cons upd show ?thesis
          by (simp add: step.simps Let_def account_def pending_released)
      qed
    qed
  qed
qed

lemma run_threads_lock_inv: "lock_inv c \<Longrightarrow> lock_inv (run_threads schedule c)"
  unfolding run_threads_def
  by (induction schedule arbitrary: c) (simp_all add: step_lock_inv)

lemma run_threads_account: "lock_inv c \<Longrightarrow> account u (run_threads schedule c) = account u c"
  unfolding run_threads_def
  by (induction schedule arbitrary: c) (simp_all add: step_lock_inv step_account)

lemma lock_inv_start: "lock_inv (start tasks s)"
  by (simp add: lock_inv_def start_def start_thread_def)

lemma account_start: "account u (start tasks s) = made u s + int (count_list (concat tasks) u)"
proof -
  have "sum_list (map (pending u) (map start_thread tasks)) = int (count_list (concat tasks) u)"
    by (induction tasks) (simp_all add: pending_def start_thread_def)
  then show ?thesis by (simp add: account_def start_def)
qed

lemma account_finished:
  assumes "\<forall>t \<in> set ts. todo t = []"
  shows "account u (ts, lock, s) = made u s"
proof -
  from assms have "sum_list (map (pending u) ts) = 0"
    by (induction ts) (simp_all add: pending_def)
  then show ?thesis by (simp add: account_def)
qed

lemma sum_list_map_update_less:
  fixes f :: "'a \<Rightarrow> nat"
  assumes "i < length xs" and "f x < f (xs ! i)"
  shows "sum_list (map f (xs[i := x])) < sum_list (map f xs)"
  using assms
proof (induction xs arbitrary: i)
  case Nil
  then show ?case by simp
next
  case (Cons a xs)
  then show ?case by (cases i) auto
qed

lemma step_works:
  assumes I: "lock_inv (ts, lock, s)" and i: "i < length ts"
    and t: "todo (ts ! i) \<noteq> []"
    and l: "lock = None \<or> lock = Some i"
  shows "work (step i (ts, lock, s)) < work (ts, lock, s)"
proof -
  obtain u us where Cons: "todo (ts ! i) = u # us" using t by (cases "todo (ts ! i)") auto
  note less = sum_list_map_update_less [OF i, of thread_work]
  have c: "0 < cost v" for v by (cases v) simp_all
  show ?thesis
  proof (cases "pos (ts ! i)")
    case Outside
    with lock_inv_lock [OF I] l i have n: "lock = None" by auto
    have "thread_work ((ts ! i)\<lparr>pos := Locked\<rparr>) < thread_work (ts ! i)"
      using Outside Cons c [of u] by (simp add: thread_work_def)
    from less [OF this] n i Cons Outside show ?thesis
      by (simp add: step.simps work_def Let_def)
  next
    case Locked
    show ?thesis
    proof (cases u)
      case (Inc n)
      have "thread_work ((ts ! i)\<lparr>pos := Loaded, tmp := get_stat n s\<rparr>) < thread_work (ts ! i)"
        using Locked Cons Inc by (simp add: thread_work_def)
      from less [OF this] i Cons Locked Inc show ?thesis
        by (simp add: step.simps work_def Let_def)
    next
      case (Err e)
      have "thread_work ((ts ! i)\<lparr>pos := Written\<rparr>) < thread_work (ts ! i)"
        using Locked Cons Err by (simp add: thread_work_def)
      from less [OF this] i Cons Locked Err show ?thesis
        by (simp add: step.simps work_def Let_def)
    qed
  next
    case Loaded
    from lock_inv_loaded [OF I i Loaded] Cons obtain n where Inc: "u = Inc n" by auto
    have "thread_work ((ts ! i)\<lparr>pos := Written\<rparr>) < thread_work (ts ! i)"
      using Loaded Cons Inc by (simp add: thread_work_def)
    from less [OF this] i Cons Loaded Inc show ?thesis
      by (simp add: step.simps work_def Let_def)
  next
    case Written
    have "thread_work ((ts ! i)\<lparr>pos := Outside, todo := us\<rparr>) < thread_work (ts ! i)"
      using Written Cons c [of u] by (simp add: thread_work_def)
    from less [OF this] i Cons Written show ?thesis
      by (simp add: step.simps work_def Let_def)
  qed
qed

lemma some_step_works:
  assumes "lock_inv c" and "\<not> finished c"
  shows "\<exists>i. work (step i c) < work c"
proof -
  obtain ts lock s where c: "c = (ts, lock, s)" by (cases c)
  note I = assms(1) [unfolded c]
  show ?thesis
  proof (cases lock)
    case None
    from assms(2) c obtain t where "t \<in> set ts" "todo t \<noteq> []"
      by (auto simp: finished_def)
    then obtain i where i: "i < length ts" "todo (ts ! i) \<noteq> []"
      by (auto simp: in_set_conv_nth)
    from step_works [OF I i] None c show ?thesis by (intro exI [of _ i]) simp
  next
    case (Some i)
    from lock_inv_lock [OF I Some] have i: "i < length ts" "pos (ts ! i) \<noteq> Outside"
      by simp_all
    from lock_inv_held [OF I i] have "todo (ts ! i) \<noteq> []" by simp
    from step_works [OF I i(1) this] Some c show ?thesis by (intro exI [of _ i]) simp
  qed
qed

lemma threads_can_finish:
  assumes "lock_inv c"
  shows "\<exists>rest. finished (run_threads rest c)"
  using assms
proof (induction "work c" arbitrary: c rule: less_induct)
  case less
  show ?case
  proof (cases "finished c")
    case True
    then have "finished (run_threads [] c)" by (simp add: run_threads_def)
    then show ?thesis ..
  next
    case False
    from some_step_works [OF less.prems False] obtain i where "work (step i c) < work c" ..
    from less.hyps [OF this step_lock_inv [OF less.prems]]
    obtain rest where "finished (run_threads rest (step i c))" ..
    then have "finished (run_threads (i # rest) c)" by (simp add: run_threads_def)
    then show ?thesis ..
  qed
qed

lemma run_threads_append:
  "run_threads (schedule @ rest) c = run_threads rest (run_threads schedule c)"
  by (simp add: run_threads_def)

text \<open>
  What the lock is for: were two threads past \<^verbatim>\<open>with self.lock\<close> at once, both could
  load the counter before either stores it, and one increment would be lost.
\<close>

lemma update_lost_without_mutual_exclusion:
  "run_threads [0, 1, 0, 1, 0, 1]
     ([\<lparr>pos = Locked, todo = [Inc Failed], tmp = 0\<rparr>,
       \<lparr>pos = Locked, todo = [Inc Failed], tmp = 0\<rparr>], None, init_stats)
   = ([\<lparr>pos = Outside, todo = [], tmp = 0\<rparr>, \<lparr>pos = Outside, todo = [], tmp = 0\<rparr>],
      None, init_stats\<lparr>failed := 1\<rparr>)"
  by (simp add: run_threads_def init_stats_def step.simps)

subsection \<open>The statistics are only updated\<close>

lemma apply_updates_simps [simp]:
  "apply_updates [] s = s"
  "apply_updates (u # us) s = apply_updates us (apply_update u s)"
  "apply_updates (us @ vs) s = apply_updates vs (apply_updates us s)"
  by (simp_all add: apply_updates_def)

lemma get_stat_increment_stat [simp]:
  "get_stat n (increment_stat m s) = get_stat n s + (if m = n then 1 else 0)"
  by (cases n; cases m) simp_all

lemma get_stat_apply_updates:
  "get_stat n (apply_updates us s) = get_stat n s + int (count_list us (Inc n))"
proof (induction us arbitrary: s)
  case Nil
  then show ?case by simp
next
  case (Cons u us)
  then show ?case by (cases u) auto
qed

lemma fetch_updates:
  "\<exists>r u w'. \<forall>s. fetch_uniprot_sequence env cfg uniprot_id s w = (r, apply_update u s, w')"
proof (cases "perform (responder env) (Get (uniprot_base_url cfg @ uniprot_id @ ''.fasta'')) w")
  case (Pair rp w1)
  show ?thesis
  proof (cases rp)
    case (Raised e)
    with Pair show ?thesis
      by (intro exI [of _ None] exI [of _ "Err (uniprot_id @ '': UniProt fetch error - '' @ e)"]
            exI [of _ w1]) (simp add: fetch_uniprot_sequence_def)
  next
    case (Response code body)
    show ?thesis
    proof (cases "code = 200")
      case False
      with Pair Response show ?thesis
        by (intro exI [of _ None]
              exI [of _ "Err (uniprot_id @ '': UniProt fetch failed - HTTP '' @ str_int code)"]
              exI [of _ w1]) (simp add: fetch_uniprot_sequence_def)
    next
      case True
      show ?thesis
      proof (cases "2 \<le> length (split_on newline (strip body))")
        case False
        with Pair Response True show ?thesis
          by (intro exI [of _ None] exI [of _ "Err (uniprot_id @ '': Invalid FASTA format'')"]
                exI [of _ w1]) (simp add: fetch_uniprot_sequence_def)
      next
        case l: True
        with Pair Response True show ?thesis
          by (intro exI [of _ "Some (concat (tl (split_on newline (strip body))),
                  drop 1 (hd (split_on newline (strip body))))"]
                exI [of _ "Inc Sequences_fetched"] exI [of _ w1])
             (simp add: fetch_uniprot_sequence_def Let_def)
      qed
    qed
  qed
qed

lemma submit_updates:
  "\<exists>r u w'. \<forall>s. submit_to_interproscan env cfg uniprot_id sq s w = (r, apply_update u s, w')"
proof (cases "perform (responder env) (Post (interproscan_base_url cfg @ ''/run'')
    [(''email'', email cfg), (''sequence'', Some sq), (''format'', Some ''json''),
     (''goterms'', Some ''true''), (''pathways'', Some ''true'')]) w")
  case (Pair rp w1)
  show ?thesis
  proof (cases rp)
    case (Raised e)
    with Pair show ?thesis
      by (intro exI [of _ None]
            exI [of _ "Err (uniprot_id @ '': InterProScan submission error - '' @ e)"]
            exI [of _ w1]) (simp add: submit_to_interproscan_def)
  next
    case (Response code body)
    show ?thesis
    proof (cases "code = 200")
      case False
      with Pair Response show ?thesis
        by (intro exI [of _ None]
              exI [of _ "Err (uniprot_id @ '': InterProScan submission failed - HTTP ''
                           @ str_int code)"]
              exI [of _ w1]) (simp add: submit_to_interproscan_def)
    next
      case True
      with Pair Response show ?thesis
        by (intro exI [of _ "Some (strip body)"] exI [of _ "Inc Interproscan_submitted"]
              exI [of _ w1]) (simp add: submit_to_interproscan_def)
    qed
  qed
qed

lemma wait_loop_updates:
  "\<exists>r u w'. \<forall>s. wait_loop env cfg job_id uniprot_id max_wait start_time s w
      = (r, apply_update u s, w')"
proof (induction env cfg job_id max_wait start_time w rule: wait_loop_induct)
  case (step env cfg job_id max_wait start_time w)
  show ?case
  proof (cases "clock w - start_time < of_int max_wait")
    case False
    then show ?thesis
      by (intro exI [of _ None]
            exI [of _ "Err (uniprot_id @ '': Timed out after '' @ str_int max_wait
                          @ '' seconds'')"] exI [of _ w])
         (simp add: wait_loop.simps)
  next
    case True
    obtain status w1 where c: "check_job_status env cfg job_id w = (status, w1)"
      by (cases "check_job_status env cfg job_id w")
    show ?thesis
    proof (cases "terminal status")
      case False
      then have n: "status \<noteq> ''FINISHED''" "status \<noteq> ''ERROR''" "status \<noteq> ''FAILURE''"
        by (auto simp: terminal_def)
      from step.IH [OF True c n] wait_loop_continue [OF True c n]
      show ?thesis by simp
    next
      case t: True
      show ?thesis
      proof (cases "status = ''FINISHED''")
        case nf: False
        with t have ef: "status = ''ERROR'' \<or> status = ''FAILURE''" by (simp add: terminal_def)
        with True c nf show ?thesis
          by (intro exI [of _ None]
                exI [of _ "Err (uniprot_id @ '': Job failed with status '' @ status)"]
                exI [of _ w1])
             (simp add: wait_loop.simps)
      next
        case f: True
        obtain rs w2 where g: "get_interproscan_results env cfg job_id w1 = (rs, w2)"
          by (cases "get_interproscan_results env cfg job_id w1")
        show ?thesis
        proof (cases "\<exists>results. rs = Some results \<and> truthy env results")
          case True
          then obtain results where "rs = Some results" "truthy env results" by blast
          with \<open>clock w - start_time < of_int max_wait\<close> c f g show ?thesis
            by (intro exI [of _ "Some results"] exI [of _ "Inc Interproscan_completed"]
                  exI [of _ w2])
               (simp add: wait_loop.simps)
        next
          case False
          with \<open>clock w - start_time < of_int max_wait\<close> c f g show ?thesis
            by (intro exI [of _ None]
                  exI [of _ "Err (uniprot_id @ '': Failed to retrieve results'')"]
                  exI [of _ w2])
               (cases rs; simp add: wait_loop.simps)
        qed
      qed
    qed
  qed
qed

lemma save_updates:
  "\<exists>us w'. \<forall>s. save_results env cfg uniprot_id sq d results s w = (apply_updates us s, w')"
proof (cases "write_fasta (responder env) (fasta_path cfg uniprot_id) d sq w")
  case (Pair e1 w1)
  show ?thesis
  proof (cases e1)
    case (Some x)
    with Pair show ?thesis
      by (intro exI [of _ "[Err (uniprot_id @ '': Save error - '' @ x)]"] exI [of _ w1])
         (simp add: save_results_def)
  next
    case None
    obtain e2 w2 where j: "write_json (responder env) (json_path cfg uniprot_id)
        (json_dump env results) w1 = (e2, w2)"
      by (cases "write_json (responder env) (json_path cfg uniprot_id)
        (json_dump env results) w1")
    show ?thesis
    proof (cases e2)
      case (Some x)
      with Pair None j show ?thesis
        by (intro exI [of _ "[Err (uniprot_id @ '': Save error - '' @ x)]"] exI [of _ w2])
           (simp add: save_results_def)
    next
      case n2: None
      with Pair None j show ?thesis
        by (intro exI [of _ "[]"] exI [of _ w2]) (simp add: save_results_def)
    qed
  qed
qed

lemma process_single_protein_updates:
  "\<exists>success us w'. \<forall>s. process_single_protein env cfg uniprot_id s w
      = (success, apply_updates us s, w')"
proof -
  obtain r1 u1 w1 where F:
    "\<And>s. fetch_uniprot_sequence env cfg uniprot_id s w = (r1, apply_update u1 s, w1)"
    using fetch_updates [of env cfg uniprot_id w] by blast
  show ?thesis
  proof (cases r1)
    case None
    with F show ?thesis
      by (intro exI [of _ False] exI [of _ "[u1, Inc Failed]"] exI [of _ w1])
         (simp add: process_single_protein_def)
  next
    case (Some sd)
    obtain sq d where sd: "sd = (sq, d)" by (cases sd)
    obtain r2 u2 w2 where S:
      "\<And>s. submit_to_interproscan env cfg uniprot_id sq s w1 = (r2, apply_update u2 s, w2)"
      using submit_updates [of env cfg uniprot_id sq w1] by blast
    show ?thesis
    proof (cases "r2 = None \<or> r2 = Some []")
      case True
      with F Some sd S show ?thesis
        by (intro exI [of _ False] exI [of _ "[u1, u2, Inc Failed]"] exI [of _ w2])
           (auto simp: process_single_protein_def)
    next
      case False
      then obtain job_id where j: "r2 = Some job_id" "job_id \<noteq> []" by auto
      obtain r3 u3 w3 where W:
        "\<And>s. wait_for_completion env cfg job_id uniprot_id default_max_wait s w2
           = (r3, apply_update u3 s, w3)"
        using wait_loop_updates [of env cfg job_id uniprot_id default_max_wait "clock w2" w2]
        by (auto simp: wait_for_completion_def)
      show ?thesis
      proof (cases r3)
        case None
        have "process_single_protein env cfg uniprot_id s w
            = (False, apply_updates [u1, u2, u3, Inc Failed] s, w3)" for s
        proof -
          note f = F [of s, unfolded \<open>r1 = Some sd\<close> sd]
          note sb = S [of "apply_update u1 s", unfolded j(1)]
          note wt = W [of "apply_update u2 (apply_update u1 s)"]
          from process_after_wait [OF f sb j(2) wt] None show ?thesis by simp
        qed
        then show ?thesis by blast
      next
        case (Some results)
        obtain us w4 where V:
          "\<And>s. save_results env cfg uniprot_id sq d results s w3 = (apply_updates us s, w4)"
          using save_updates [of env cfg uniprot_id sq d results w3] by blast
        have "process_single_protein env cfg uniprot_id s w
            = (True, apply_updates ([u1, u2, u3] @ us) s, w4)" for s
        proof -
          note f = F [of s, unfolded \<open>r1 = Some sd\<close> sd]
          note sb = S [of "apply_update u1 s", unfolded j(1)]
          note wt = W [of "apply_update u2 (apply_update u1 s)"]
          from process_after_wait [OF f sb j(2) wt] Some V show ?thesis by simp
        qed
        then show ?thesis by blast
      qed
    qed
  qed
qed

lemma worker_counts_once:
  assumes "\<forall>s. process_single_protein env cfg uniprot_id s w = (success, apply_updates us s, w')"
  shows "count_list us (Inc Interproscan_completed) + count_list us (Inc Failed) = 1
    \<and> count_list us (Inc Total) = 0"
proof -
  from assms have "process_single_protein env cfg uniprot_id init_stats w
      = (success, apply_updates us init_stats, w')" by blast
  from process_single_protein_counters [OF this]
  have "get_stat Total (apply_updates us init_stats) = get_stat Total init_stats"
    "get_stat Interproscan_completed (apply_updates us init_stats)
       + get_stat Failed (apply_updates us init_stats)
     = get_stat Interproscan_completed init_stats + get_stat Failed init_stats + 1"
    by (auto split: if_splits)
  then show ?thesis by (simp add: get_stat_apply_updates)
qed

lemma workers_count_once:
  assumes "\<forall>us \<in> set tasks.
      count_list us (Inc Interproscan_completed) + count_list us (Inc Failed) = 1
      \<and> count_list us (Inc Total) = 0"
  shows "count_list (concat tasks) (Inc Interproscan_completed)
       + count_list (concat tasks) (Inc Failed) = length tasks
     \<and> count_list (concat tasks) (Inc Total) = 0"
  using assms by (induction tasks) auto

text \<open>
  The same equation for workers that run at the same time: each worker makes the updates
  of one call of \<^verbatim>\<open>process_single_protein\<close> (in some outside world of its own, and
  by \<open>process_single_protein_updates\<close> every call is such a list of updates), the
  updates are made under the lock in the order of any schedule, and \<open>total\<close> was set to
  the number of workers before they started.
\<close>

lemma concurrent_run_counts:
  assumes "\<forall>us \<in> set tasks. \<exists>(env :: 'r env) uniprot_id w0 success w1.
          \<forall>s. process_single_protein env cfg uniprot_id s w0
                = (success, apply_updates us s, w1)"
    and r: "run_threads schedule (start tasks (init_stats\<lparr>total_ids := int (length tasks)\<rparr>))
          = (ts, lock, s)"
    and "finished (ts, lock, s)"
  shows "interproscan_completed s + failed s = total_ids s"
proof -
  let ?s0 = "init_stats\<lparr>total_ids := int (length tasks)\<rparr>"
  from assms(3) have f: "\<forall>t \<in> set ts. todo t = []" by (simp add: finished_def)
  from assms(1) have "\<forall>us \<in> set tasks.
      count_list us (Inc Interproscan_completed) + count_list us (Inc Failed) = 1
      \<and> count_list us (Inc Total) = 0"
    using worker_counts_once by blast
  from workers_count_once [OF this]
  have c: "count_list (concat tasks) (Inc Interproscan_completed)
       + count_list (concat tasks) (Inc Failed) = length tasks"
    "count_list (concat tasks) (Inc Total) = 0" by simp_all
  have m: "made (Inc n) s = made (Inc n) ?s0 + int (count_list (concat tasks) (Inc n))" for n
    using run_threads_account [OF lock_inv_start, of "Inc n" schedule tasks ?s0] r
      account_finished [OF f] account_start by simp
  from m [of Interproscan_completed] m [of Failed] m [of Total] c
  show ?thesis by (simp add: init_stats_def)
qed

lemma concurrent_run_counts_example:
  "snd (snd (run_threads two_workers_schedule
         (start two_workers (init_stats\<lparr>total_ids := 2\<rparr>))))
     = \<lparr>total_ids = 2, sequences_fetched = 1, interproscan_submitted = 1,
         interproscan_completed = 1, failed = 1,
         errors = [''BADID: UniProt fetch failed - HTTP 404'']\<rparr>"
proof -
  let ?s = "\<lparr>total_ids = 2, sequences_fetched = 1, interproscan_submitted = 1,
         interproscan_completed = 1, failed = 1,
         errors = [''BADID: UniProt fetch failed - HTTP 404'']\<rparr>"
  let ?ts = "[\<lparr>pos = Outside, todo = [], tmp = 0\<rparr>, \<lparr>pos = Outside, todo = [], tmp = 0\<rparr>]"
  let ?c = "run_threads two_workers_schedule
              (start two_workers (init_stats\<lparr>total_ids := int (length two_workers)\<rparr>))"
  have c: "?c = (?ts, None, ?s)"
    by (simp add: run_threads_def two_workers_schedule_def two_workers_def start_def
          start_thread_def init_stats_def step.simps add_error_def)
  have f: "finished (?ts, None, ?s)"
    by (simp add: finished_def)
  have 1: "\<forall>s. process_single_protein (test_env badid_script) test_config ''BADID'' s world0
      = (False, apply_updates [Err ''BADID: UniProt fetch failed - HTTP 404'', Inc Failed] s,
         \<lparr>clock = 1, trace = [(Get ''u/BADID.fasta'', Response 404 ''Not Found'')],
          files = Map.empty\<rparr>)"
    by (simp add: badid_script_def stage_defs world_defs)
  have 2: "\<forall>s. process_single_protein (test_env success_script) test_config ''P12345'' s world0
      = (True,
         apply_updates
           [Inc Sequences_fetched, Inc Interproscan_submitted, Inc Interproscan_completed] s,
         snd (snd (process_single_protein (test_env success_script) test_config ''P12345''
                     init_stats world0)))"
    by (simp add: success_script_def stage_defs world_defs wait_loop.simps write_lines.simps)
  from 1 2 have w: "\<forall>us \<in> set two_workers. \<exists>(env :: string env) uniprot_id w0 success w1.
          \<forall>s. process_single_protein env test_config uniprot_id s w0
                = (success, apply_updates us s, w1)"
    unfolding two_workers_def by (simp del: apply_updates_simps) blast
  from concurrent_run_counts [OF w c f] c show ?thesis by (simp add: two_workers_def)
qed

section \<open>The claims\<close>

subsection \<open>Every identifier is counted once\<close>

text \<open>
  C1: every identifier increments exactly one of \<open>interproscan_completed\<close> and
  \<open>failed\<close>, by one and according to the outcome of \<^verbatim>\<open>process_single_protein\<close>,
  and leaves the other as it was, whatever the outside world answers and whichever stage
  fails. So after a run of \<^verbatim>\<open>process_proteins\<close> that returns,
  \<open>interproscan_completed + failed = total\<close>. Here the proteins are processed one
  after the other; \<open>concurrent_run_counts\<close> is the same equation for workers that run
  at the same time.
\<close>

theorem completed_plus_failed_is_total:
  "(process_single_protein env cfg uniprot_id s w = (success, s1, w1) \<longrightarrow>
      total_ids s1 = total_ids s
      \<and> (if success
         then interproscan_completed s1 = interproscan_completed s + 1 \<and> failed s1 = failed s
         else interproscan_completed s1 = interproscan_completed s \<and> failed s1 = failed s + 1))
   \<and> (process_proteins env cfg input_file max_workers init_stats w = (Returned s', w')
      \<longrightarrow> interproscan_completed s' + failed s' = total_ids s')"
proof (intro conjI impI)
  assume "process_single_protein env cfg uniprot_id s w = (success, s1, w1)"
  from process_single_protein_counters [OF this]
  show "total_ids s1 = total_ids s"
    "if success
     then interproscan_completed s1 = interproscan_completed s + 1 \<and> failed s1 = failed s
     else interproscan_completed s1 = interproscan_completed s \<and> failed s1 = failed s + 1"
    by simp_all
next
  assume "process_proteins env cfg input_file max_workers init_stats w = (Returned s', w')"
  then show "interproscan_completed s' + failed s' = total_ids s'"
    by (auto simp: process_proteins_def init_stats_def
             split: if_splits prod.splits option.splits dest!: process_all_counters)
qed

theorem completed_plus_failed_is_total_witness:
  "process_single_protein (test_env badid_script) test_config ''BADID'' init_stats world0
     = (False,
        \<lparr>total_ids = 0, sequences_fetched = 0, interproscan_submitted = 0,
          interproscan_completed = 0, failed = 1,
          errors = [''BADID: UniProt fetch failed - HTTP 404'']\<rparr>,
        \<lparr>clock = 1, trace = [(Get ''u/BADID.fasta'', Response 404 ''Not Found'')],
          files = Map.empty\<rparr>)
   \<and> fst (process_proteins (test_env two_ids_script) test_config ''ids.txt'' 5 init_stats
          world0)
     = Returned \<lparr>total_ids = 2, sequences_fetched = 1, interproscan_submitted = 1,
         interproscan_completed = 1, failed = 1,
         errors = [''BADID: UniProt fetch failed - HTTP 404'']\<rparr>
   \<and> (1::int) + 1 = 2"
proof -
  let ?run = "process_proteins (test_env two_ids_script) test_config ''ids.txt'' 5
                init_stats world0"
  let ?s = "\<lparr>total_ids = 2, sequences_fetched = 1, interproscan_submitted = 1,
         interproscan_completed = 1, failed = 1,
         errors = [''BADID: UniProt fetch failed - HTTP 404'']\<rparr>"
  let ?s1 = "\<lparr>total_ids = 0, sequences_fetched = 0, interproscan_submitted = 0,
          interproscan_completed = 0, failed = 1,
          errors = [''BADID: UniProt fetch failed - HTTP 404'']\<rparr>"
  let ?w1 = "\<lparr>clock = 1, trace = [(Get ''u/BADID.fasta'', Response 404 ''Not Found'')],
          files = Map.empty\<rparr>"
  have p: "process_single_protein (test_env badid_script) test_config ''BADID'' init_stats
             world0 = (False, ?s1, ?w1)"
    by (simp add: badid_script_def stage_defs world_defs)
  have r: "fst ?run = Returned ?s"
    by (simp add: two_ids_script_def stage_defs world_defs wait_loop.simps write_lines.simps)
  then have R: "?run = (Returned ?s, snd ?run)"
    by (metis prod.collapse)
  from completed_plus_failed_is_total [of "test_env badid_script" test_config "''BADID''"
      init_stats world0 False ?s1 ?w1] p
  have 1: "failed ?s1 = failed init_stats + 1" by simp
  from completed_plus_failed_is_total [of "test_env two_ids_script" test_config _ _ world0
      _ _ _ "''ids.txt''" 5 ?s "snd ?run"] R
  have 2: "interproscan_completed ?s + failed ?s = total_ids ?s" by simp
  from p r 1 2 show ?thesis by simp
qed

subsection \<open>A failed status request\<close>

text \<open>
  C2, as the code has it: a status request that raises, or whose HTTP status is not 200,
  makes \<^verbatim>\<open>check_job_status\<close> return ERROR, on which the loop of
  \<^verbatim>\<open>wait_for_completion\<close> returns \<^verbatim>\<open>None\<close> at once: the failure of the job is
  logged, the world is the one after that request, with no sleep and no further
  request.
\<close>

theorem failed_poll_ends_wait:
  assumes "perform (responder env) (Get (status_url cfg job_id)) w = (r, w1)"
    and "\<forall>text. r \<noteq> Response 200 text"
  shows "check_job_status env cfg job_id w = (''ERROR'', w1)
   \<and> (clock w - start_time < of_int max_wait
      \<longrightarrow> wait_loop env cfg job_id uniprot_id max_wait start_time s w
          = (None, add_error (uniprot_id @ '': Job failed with status ERROR'') s, w1))
   \<and> (0 < max_wait
      \<longrightarrow> wait_for_completion env cfg job_id uniprot_id max_wait s w
          = (None, add_error (uniprot_id @ '': Job failed with status ERROR'') s, w1))"
proof -
  from assms(2) have "status_of_reply r = ''ERROR''"
    by (cases r) auto
  with assms(1) have c: "check_job_status env cfg job_id w = (''ERROR'', w1)"
    by (simp add: check_job_status_def)
  have l: "wait_loop env cfg job_id uniprot_id max_wait start_time s w
          = (None, add_error (uniprot_id @ '': Job failed with status ERROR'') s, w1)"
    if "clock w - start_time < of_int max_wait" for start_time
    using that c by (subst wait_loop.simps) simp
  from c l [of start_time] l [of "clock w"] show ?thesis
    by (simp add: wait_for_completion_def)
qed

theorem failed_poll_ends_wait_witness:
  "wait_for_completion (test_env unavailable_script) test_config ''iprscan5-R1'' ''P12345''
       3600 init_stats world0
     = (None, add_error ''P12345: Job failed with status ERROR'' init_stats,
        \<lparr>clock = 5,
         trace = [(Get ''i/status/iprscan5-R1'', Response 503 ''Service Unavailable'')],
         files = Map.empty\<rparr>)"
proof -
  let ?w1 = "\<lparr>clock = 5,
         trace = [(Get ''i/status/iprscan5-R1'', Response 503 ''Service Unavailable'')],
         files = Map.empty\<rparr>"
  have p: "perform (responder (test_env unavailable_script))
             (Get (status_url test_config ''iprscan5-R1'')) world0
           = (Response 503 ''Service Unavailable'', ?w1)"
    by (simp add: unavailable_script_def stage_defs world_defs)
  have n: "\<forall>text. Response 503 ''Service Unavailable'' \<noteq> Response 200 text" by simp
  from failed_poll_ends_wait [OF p n, of 0 3600 "''P12345''" init_stats] show ?thesis
    by simp
qed

text \<open>
  C2 as stated fails: with an hour to wait, a refused connection on the first status
  request gives the status ERROR and ends the wait after five seconds and one request,
  with the job logged as failed.
\<close>

theorem poll_error_aborts_wait_counterexample:
  "check_job_status (test_env refused_script) test_config ''iprscan5-R1'' world0
     = (''ERROR'',
        \<lparr>clock = 5, trace = [(Get ''i/status/iprscan5-R1'', Raised ''Connection refused'')],
         files = Map.empty\<rparr>)
   \<and> wait_for_completion (test_env refused_script) test_config ''iprscan5-R1'' ''P12345''
       3600 init_stats world0
     = (None,
        init_stats\<lparr>errors := [''P12345: Job failed with status ERROR'']\<rparr>,
        \<lparr>clock = 5, trace = [(Get ''i/status/iprscan5-R1'', Raised ''Connection refused'')],
         files = Map.empty\<rparr>)
   \<and> (5::real) - clock world0 < 3600"
  by (simp add: refused_script_def stage_defs world_defs wait_loop.simps)

subsection \<open>Status sequences\<close>

text \<open>
  C3: the outcome of \<^verbatim>\<open>wait_for_completion\<close> follows from the statuses it saw.
  When they are RUNNING, RUNNING, FINISHED and the result request then gives a document
  that counts as true, that document is returned, \<open>interproscan_completed\<close> is one more
  than before and nothing else in the statistics has changed. When the last status is
  ERROR or FAILURE the call returns \<^verbatim>\<open>None\<close> and the error log has one more entry,
  \<^verbatim>\<open><id>: Job failed with status <status>\<close>; when all of them are RUNNING it returns
  \<^verbatim>\<open>None\<close>, at least \<^verbatim>\<open>max_wait\<close> seconds have passed, and the one more entry is
  \<^verbatim>\<open><id>: Timed out after <max_wait> seconds\<close>; in both cases no counter has changed.
  After a \<^verbatim>\<open>None\<close>, \<^verbatim>\<open>process_single_protein\<close> returns \<^verbatim>\<open>False\<close> with \<open>failed\<close>
  one more than it was before the protein and \<open>interproscan_completed\<close> as it was.
\<close>

theorem wait_outcome_by_status_sequence:
  assumes "wait_for_completion env cfg job_id uniprot_id max_wait s w = (res, s', w')"
  shows
    "(observed_statuses cfg job_id (new_trace w w') = [''RUNNING'', ''RUNNING'', ''FINISHED'']
        \<and> results_of_reply env (snd (last (new_trace w w'))) = Some results
        \<and> truthy env results
      \<longrightarrow> res = Some results
        \<and> interproscan_completed s' = interproscan_completed s + 1
        \<and> failed s' = failed s
        \<and> errors s' = errors s
        \<and> s' = s\<lparr>interproscan_completed := interproscan_completed s + 1\<rparr>)
   \<and> (observed_statuses cfg job_id (new_trace w w') \<noteq> []
        \<and> (last (observed_statuses cfg job_id (new_trace w w')) = ''ERROR''
           \<or> last (observed_statuses cfg job_id (new_trace w w')) = ''FAILURE'')
      \<longrightarrow> res = None
        \<and> interproscan_completed s' = interproscan_completed s
        \<and> failed s' = failed s
        \<and> errors s' = errors s @ [uniprot_id @ '': Job failed with status ''
                  @ last (observed_statuses cfg job_id (new_trace w w'))]
        \<and> s' = s\<lparr>errors := errors s @ [uniprot_id @ '': Job failed with status ''
                  @ last (observed_statuses cfg job_id (new_trace w w'))]\<rparr>)
   \<and> (set (observed_statuses cfg job_id (new_trace w w')) \<subseteq> {''RUNNING''}
      \<longrightarrow> res = None \<and> of_int max_wait \<le> clock w' - clock w
        \<and> interproscan_completed s' = interproscan_completed s
        \<and> failed s' = failed s
        \<and> errors s' = errors s @ [uniprot_id @ '': Timed out after '' @ str_int max_wait
                  @ '' seconds'']
        \<and> s' = s\<lparr>errors := errors s @ [uniprot_id @ '': Timed out after ''
                  @ str_int max_wait @ '' seconds'']\<rparr>)
   \<and> (res = None \<and> max_wait = default_max_wait
        \<and> fetch_uniprot_sequence env cfg uniprot_id s0 w0 = (Some (sq, d), s1, w1)
        \<and> submit_to_interproscan env cfg uniprot_id sq s1 w1 = (Some job_id, s, w)
        \<and> job_id \<noteq> []
      \<longrightarrow> process_single_protein env cfg uniprot_id s0 w0
            = (False, s'\<lparr>failed := failed s0 + 1\<rparr>, w')
        \<and> failed s' = failed s0
        \<and> interproscan_completed s' = interproscan_completed s0)"
proof -
  let ?obs = "observed_statuses cfg job_id (new_trace w w')"
  note o = wait_for_completion_outcome [OF assms]
  have 1: "res = Some results \<and> s' = increment_stat Interproscan_completed s"
    if "?obs = [''RUNNING'', ''RUNNING'', ''FINISHED'']"
      "results_of_reply env (snd (last (new_trace w w'))) = Some results" "truthy env results"
    using o that by (simp add: terminal_def)
  have 2: "res = None \<and> s' = add_error (uniprot_id @ '': Job failed with status '' @ last ?obs) s"
    if "?obs \<noteq> []" "last ?obs = ''ERROR'' \<or> last ?obs = ''FAILURE''"
  proof -
    from that(2) have "terminal (last ?obs)" "last ?obs \<noteq> ''FINISHED''"
      by (auto simp: terminal_def)
    with that(1) conjunct2 [OF conjunct2 [OF o]] show ?thesis by simp
  qed
  have 3: "res = None \<and> of_int max_wait \<le> clock w' - clock w
        \<and> s' = add_error (uniprot_id @ '': Timed out after '' @ str_int max_wait
                  @ '' seconds'') s"
    if "set ?obs \<subseteq> {''RUNNING''}"
  proof -
    have "?obs = [] \<or> \<not> terminal (last ?obs)"
    proof (cases "?obs = []")
      case False
      then have "last ?obs \<in> set ?obs" by simp
      with that have "last ?obs = ''RUNNING''" by auto
      then show ?thesis by (simp add: terminal_def)
    qed simp
    moreover note conjunct2 [OF conjunct2 [OF o]]
    ultimately show ?thesis by (simp only: if_True)
  qed
  have 4: "process_single_protein env cfg uniprot_id s0 w0
            = (False, s'\<lparr>failed := failed s0 + 1\<rparr>, w')
        \<and> failed s' = failed s0
        \<and> interproscan_completed s' = interproscan_completed s0"
    if n: "res = None" and m: "max_wait = default_max_wait"
      and f: "fetch_uniprot_sequence env cfg uniprot_id s0 w0 = (Some (sq, d), s1, w1)"
      and b: "submit_to_interproscan env cfg uniprot_id sq s1 w1 = (Some job_id, s, w)"
      and j: "job_id \<noteq> []"
  proof -
    from process_after_wait [OF f b j] assms n m
    have p: "process_single_protein env cfg uniprot_id s0 w0 = (False, increment_stat Failed s', w')"
      by simp
    from assms n have "interproscan_completed s' = interproscan_completed s \<and> failed s' = failed s"
      by (auto simp: wait_for_completion_def dest: wait_loop_counters)
    with fetch_counters [OF f] submit_counters [OF b]
    have c: "failed s' = failed s0" "interproscan_completed s' = interproscan_completed s0"
      by simp_all
    from p c show ?thesis by simp
  qed
  show ?thesis
  proof (intro conjI impI)
    assume a: "?obs = [''RUNNING'', ''RUNNING'', ''FINISHED'']
        \<and> results_of_reply env (snd (last (new_trace w w'))) = Some results
        \<and> truthy env results"
    from a 1 have r: "res = Some results" "s' = increment_stat Interproscan_completed s"
      by simp_all
    from r show "res = Some results" by simp
    from r show "interproscan_completed s' = interproscan_completed s + 1" by simp
    from r show "failed s' = failed s" by simp
    from r show "errors s' = errors s" by simp
    from r show "s' = s\<lparr>interproscan_completed := interproscan_completed s + 1\<rparr>" by simp
  next
    assume a: "?obs \<noteq> [] \<and> (last ?obs = ''ERROR'' \<or> last ?obs = ''FAILURE'')"
    from a 2 have r: "res = None"
      "s' = add_error (uniprot_id @ '': Job failed with status '' @ last ?obs) s"
      by simp_all
    from r show "res = None" by simp
    from r(2) show "interproscan_completed s' = interproscan_completed s" by simp
    from r(2) show "failed s' = failed s" by simp
    from r(2) show "errors s' = errors s @ [uniprot_id @ '': Job failed with status ''
                  @ last ?obs]" by simp
    from r(2) show "s' = s\<lparr>errors := errors s @ [uniprot_id @ '': Job failed with status ''
                  @ last ?obs]\<rparr>" by (simp add: add_error_def)
  next
    assume a: "set ?obs \<subseteq> {''RUNNING''}"
    from a 3 have r: "res = None" "of_int max_wait \<le> clock w' - clock w"
      "s' = add_error (uniprot_id @ '': Timed out after '' @ str_int max_wait
                  @ '' seconds'') s"
      by simp_all
    from r show "res = None" by simp
    from r show "of_int max_wait \<le> clock w' - clock w" by simp
    from r(3) show "interproscan_completed s' = interproscan_completed s" by simp
    from r(3) show "failed s' = failed s" by simp
    from r(3) show "errors s' = errors s @ [uniprot_id @ '': Timed out after ''
                  @ str_int max_wait @ '' seconds'']" by simp
    from r(3) show "s' = s\<lparr>errors := errors s @ [uniprot_id @ '': Timed out after ''
                  @ str_int max_wait @ '' seconds'']\<rparr>" by (simp add: add_error_def)
  next
    assume a: "res = None \<and> max_wait = default_max_wait
        \<and> fetch_uniprot_sequence env cfg uniprot_id s0 w0 = (Some (sq, d), s1, w1)
        \<and> submit_to_interproscan env cfg uniprot_id sq s1 w1 = (Some job_id, s, w)
        \<and> job_id \<noteq> []"
    with 4 show "process_single_protein env cfg uniprot_id s0 w0
            = (False, s'\<lparr>failed := failed s0 + 1\<rparr>, w')"
      "failed s' = failed s0" "interproscan_completed s' = interproscan_completed s0"
      by simp_all
  qed
qed

theorem wait_outcome_by_status_sequence_witness:
  "wait_for_completion (test_env rrf_script) test_config ''iprscan5-R1'' ''P12345'' 3600
       init_stats world0
     = (Some ''[1, 2]'',
        \<lparr>total_ids = 0, sequences_fetched = 0, interproscan_submitted = 0,
          interproscan_completed = 1, failed = 0, errors = []\<rparr>,
        snd (snd (wait_for_completion (test_env rrf_script) test_config ''iprscan5-R1''
                    ''P12345'' 3600 init_stats world0)))
   \<and> wait_for_completion (test_env failure_script) test_config ''iprscan5-R1'' ''P12345'' 3600
       init_stats world0
     = (None,
        \<lparr>total_ids = 0, sequences_fetched = 0, interproscan_submitted = 0,
          interproscan_completed = 0, failed = 0,
          errors = [''P12345: Job failed with status FAILURE'']\<rparr>,
        snd (snd (wait_for_completion (test_env failure_script) test_config ''iprscan5-R1''
                    ''P12345'' 3600 init_stats world0)))
   \<and> wait_for_completion (test_env running_script) test_config ''iprscan5-R1'' ''P12345'' 60
       init_stats world0
     = (None,
        \<lparr>total_ids = 0, sequences_fetched = 0, interproscan_submitted = 0,
          interproscan_completed = 0, failed = 0,
          errors = [''P12345: Timed out after 60 seconds'']\<rparr>,
        snd (snd (wait_for_completion (test_env running_script) test_config ''iprscan5-R1''
                    ''P12345'' 60 init_stats world0)))
   \<and> 60 \<le> clock (snd (snd (wait_for_completion (test_env running_script) test_config
                    ''iprscan5-R1'' ''P12345'' 60 init_stats world0)))
   \<and> process_single_protein (test_env failed_job_script) test_config ''P12345''
        init_stats world0
     = (False,
        \<lparr>total_ids = 0, sequences_fetched = 1, interproscan_submitted = 1,
          interproscan_completed = 0, failed = 1,
          errors = [''P12345: Job failed with status FAILURE'']\<rparr>,
        snd (snd (process_single_protein (test_env failed_job_script) test_config ''P12345''
                    init_stats world0)))"
proof -
  let ?cfg = test_config and ?job = "''iprscan5-R1''" and ?uid = "''P12345''"
  let ?A = "wait_for_completion (test_env rrf_script) ?cfg ?job ?uid 3600 init_stats world0"
  let ?B = "wait_for_completion (test_env failure_script) ?cfg ?job ?uid 3600 init_stats world0"
  let ?C = "wait_for_completion (test_env running_script) ?cfg ?job ?uid 60 init_stats world0"
  have a: "observed_statuses ?cfg ?job (new_trace world0 (snd (snd ?A)))
             = [''RUNNING'', ''RUNNING'', ''FINISHED'']"
    "results_of_reply (test_env rrf_script) (snd (last (new_trace world0 (snd (snd ?A)))))
       = Some ''[1, 2]''"
    "truthy (test_env rrf_script) ''[1, 2]''"
    by (simp_all add: rrf_script_def stage_defs world_defs wait_loop.simps new_trace_def
          observed_statuses_def)
  have A: "?A = (fst ?A, fst (snd ?A), snd (snd ?A))" by simp
  have 1: "fst ?A = Some ''[1, 2]''"
    "fst (snd ?A) = init_stats\<lparr>interproscan_completed := interproscan_completed init_stats + 1\<rparr>"
    using wait_outcome_by_status_sequence [OF A, of "''[1, 2]''"] a by simp_all
  have b: "observed_statuses ?cfg ?job (new_trace world0 (snd (snd ?B)))
             = [''RUNNING'', ''FAILURE'']"
    by (simp add: failure_script_def stage_defs world_defs wait_loop.simps new_trace_def
          observed_statuses_def)
  have B: "?B = (fst ?B, fst (snd ?B), snd (snd ?B))" by simp
  have 2: "fst ?B = None"
    "fst (snd ?B) = init_stats\<lparr>errors := errors init_stats
        @ [''P12345: Job failed with status FAILURE'']\<rparr>"
    using wait_outcome_by_status_sequence [OF B] b by simp_all
  have c: "observed_statuses ?cfg ?job (new_trace world0 (snd (snd ?C)))
             = [''RUNNING'', ''RUNNING'']"
    by (simp add: running_script_def stage_defs world_defs wait_loop.simps new_trace_def
          observed_statuses_def)
  have C: "?C = (fst ?C, fst (snd ?C), snd (snd ?C))" by simp
  have 3: "fst ?C = None"
    "fst (snd ?C) = init_stats\<lparr>errors := errors init_stats
        @ [''P12345: Timed out after 60 seconds'']\<rparr>"
    "60 \<le> clock (snd (snd ?C))"
    using wait_outcome_by_status_sequence [OF C] c by (simp_all add: world_defs)
  let ?env = "test_env failed_job_script"
  let ?F = "fetch_uniprot_sequence ?env ?cfg ?uid init_stats world0"
  let ?S = "submit_to_interproscan ?env ?cfg ?uid ''MKT'' (fst (snd ?F)) (snd (snd ?F))"
  let ?W = "wait_for_completion ?env ?cfg ?job ?uid default_max_wait
              (fst (snd ?S)) (snd (snd ?S))"
  have f: "fst ?F = Some (''MKT'', ''Test protein'')"
    by (simp add: failed_job_script_def stage_defs world_defs)
  then have F: "?F = (Some (''MKT'', ''Test protein''), fst (snd ?F), snd (snd ?F))"
    by (metis prod.collapse)
  have "fst ?S = Some ?job"
    by (simp add: failed_job_script_def stage_defs world_defs)
  then have S: "?S = (Some ?job, fst (snd ?S), snd (snd ?S))"
    by (metis prod.collapse)
  have w: "fst ?W = None"
    "fst (snd ?W) = \<lparr>total_ids = 0, sequences_fetched = 1, interproscan_submitted = 1,
          interproscan_completed = 0, failed = 0,
          errors = [''P12345: Job failed with status FAILURE'']\<rparr>"
    by (simp_all add: failed_job_script_def stage_defs world_defs wait_loop.simps)
  have W: "?W = (fst ?W, fst (snd ?W), snd (snd ?W))" by simp
  have "process_single_protein ?env ?cfg ?uid init_stats world0
             = (False, (fst (snd ?W))\<lparr>failed := failed init_stats + 1\<rparr>, snd (snd ?W))"
    using wait_outcome_by_status_sequence [OF W, of _ init_stats world0 "''MKT''"
        "''Test protein''" "fst (snd ?F)" "snd (snd ?F)"] w(1) F S
    by simp
  then have 4: "process_single_protein ?env ?cfg ?uid init_stats world0
             = (False, \<lparr>total_ids = 0, sequences_fetched = 1, interproscan_submitted = 1,
          interproscan_completed = 0, failed = 1,
          errors = [''P12345: Job failed with status FAILURE'']\<rparr>, snd (snd ?W))"
    unfolding w(2) by (simp add: init_stats_def)
  have sA: "fst (snd ?A) = \<lparr>total_ids = 0, sequences_fetched = 0, interproscan_submitted = 0,
          interproscan_completed = 1, failed = 0, errors = []\<rparr>"
    unfolding 1(2) by (simp add: init_stats_def)
  have sB: "fst (snd ?B) = \<lparr>total_ids = 0, sequences_fetched = 0, interproscan_submitted = 0,
          interproscan_completed = 0, failed = 0,
          errors = [''P12345: Job failed with status FAILURE'']\<rparr>"
    unfolding 2(2) by (simp add: init_stats_def)
  have sC: "fst (snd ?C) = \<lparr>total_ids = 0, sequences_fetched = 0, interproscan_submitted = 0,
          interproscan_completed = 0, failed = 0,
          errors = [''P12345: Timed out after 60 seconds'']\<rparr>"
    unfolding 3(2) by (simp add: init_stats_def)
  from 1(1) sA 2(1) sB 3(1) sC 3(3) show ?thesis
    by (simp add: 4 prod_eq_iff)
qed

subsection \<open>The order of the stages\<close>

text \<open>
  C4: the calls \<^verbatim>\<open>process_single_protein\<close> makes, in the order it makes them: the
  request for the sequence; then, only if the fetch succeeded, the submission; then, only
  if that gave a job, the status and result requests and sleeps of the wait; then, only
  if the wait gave a result, the writes of \<^verbatim>\<open>save_results\<close>. Where a stage fails
  nothing follows, the outcome is \<^verbatim>\<open>False\<close> and \<open>failed\<close> is incremented on the
  statistics that stage left. In particular after an HTTP 404 from the fetch the
  request is the only call, \<open>failed\<close> is one more, and the error log has one more
  entry, naming the identifier and the status.
\<close>

theorem stages_run_in_order:
  assumes "process_single_protein env cfg uniprot_id s w = (success, s', w')"
  shows "\<exists>r1 rest.
     new_trace w w' = (Get (uniprot_base_url cfg @ uniprot_id @ ''.fasta''), r1) # rest
   \<and> (\<forall>text. r1 = Response 404 text \<longrightarrow>
          rest = [] \<and> \<not> success \<and> failed s' = failed s + 1
          \<and> errors s' = errors s @ [uniprot_id @ '': UniProt fetch failed - HTTP 404''])
   \<and> (case fetch_uniprot_sequence env cfg uniprot_id s w of
         (None, s1, w1) \<Rightarrow> rest = [] \<and> \<not> success \<and> s' = increment_stat Failed s1
       | (Some (sq, d), s1, w1) \<Rightarrow>
           (\<exists>r2 params rest2.
              rest = (Post (interproscan_base_url cfg @ ''/run'') params, r2) # rest2
            \<and> (case submit_to_interproscan env cfg uniprot_id sq s1 w1 of
                 (None, s2, w2) \<Rightarrow>
                   rest2 = [] \<and> \<not> success \<and> s' = increment_stat Failed s2
               | (Some job_id, s2, w2) \<Rightarrow>
                   if job_id = []
                   then rest2 = [] \<and> \<not> success \<and> s' = increment_stat Failed s2
                   else (\<exists>wt sv. rest2 = wt @ sv
                     \<and> (\<forall>(c, r) \<in> set wt. wait_call cfg job_id c)
                     \<and> (\<forall>(c, r) \<in> set sv. save_call cfg uniprot_id c)
                     \<and> (case wait_for_completion env cfg job_id uniprot_id
                                default_max_wait s2 w2 of
                          (None, s3, w3) \<Rightarrow>
                            sv = [] \<and> \<not> success \<and> s' = increment_stat Failed s3
                        | (Some results, s3, w3) \<Rightarrow>
                            sv \<noteq> [] \<and> success
                            \<and> (s', w') = save_results env cfg uniprot_id sq d results
                                           s3 w3)))))"
proof -
  let ?get = "Get (uniprot_base_url cfg @ uniprot_id @ ''.fasta'')"
  obtain f s1 w1 where F: "fetch_uniprot_sequence env cfg uniprot_id s w = (f, s1, w1)"
    by (cases "fetch_uniprot_sequence env cfg uniprot_id s w")
  from fetch_trace [OF F] obtain r1 where t1: "trace w1 = trace w @ [(?get, r1)]"
    and nf: "\<forall>text. r1 = Response 404 text \<longrightarrow> f = None
           \<and> s1 = add_error (uniprot_id @ '': UniProt fetch failed - HTTP 404'') s"
    by blast
  show ?thesis
  proof (cases f)
    case None
    with assms F have r: "\<not> success" "s' = increment_stat Failed s1" "w' = w1"
      by (simp_all add: process_single_protein_def)
    with t1 have "new_trace w w' = [(?get, r1)]" by (simp add: new_trace_def)
    with r nf F None show ?thesis by (intro exI [of _ r1] exI [of _ "[]"]) auto
  next
    case (Some sd)
    obtain sq d where sd: "sd = (sq, d)" by (cases sd)
    from Some nf have n404: "\<forall>text. r1 \<noteq> Response 404 text" by auto
    obtain j s2 w2 where S: "submit_to_interproscan env cfg uniprot_id sq s1 w1 = (j, s2, w2)"
      by (cases "submit_to_interproscan env cfg uniprot_id sq s1 w1")
    from submit_trace [OF S] obtain r2 params where
      t2: "trace w2 = trace w1 @ [(Post (interproscan_base_url cfg @ ''/run'') params, r2)]"
      by blast
    let ?post = "Post (interproscan_base_url cfg @ ''/run'') params"
    show ?thesis
    proof (cases "j = None \<or> j = Some []")
      case True
      with assms F Some sd S have r: "\<not> success" "s' = increment_stat Failed s2" "w' = w2"
        by (auto simp: process_single_protein_def)
      with t1 t2 have "new_trace w w' = [(?get, r1), (?post, r2)]"
        by (simp add: new_trace_def)
      with r n404 F Some sd S True show ?thesis
        by (intro exI [of _ r1] exI [of _ "[(?post, r2)]"]) auto
    next
      case False
      then obtain job_id where j: "j = Some job_id" "job_id \<noteq> []" by auto
      obtain res s3 w3 where W:
        "wait_for_completion env cfg job_id uniprot_id default_max_wait s2 w2 = (res, s3, w3)"
        by (cases "wait_for_completion env cfg job_id uniprot_id default_max_wait s2 w2")
      from wait_loop_calls [OF W [unfolded wait_for_completion_def Let_def]]
      obtain wt where t3: "trace w3 = trace w2 @ wt"
        and wc: "\<forall>(c, r) \<in> set wt. wait_call cfg job_id c" by blast
      note P = process_after_wait [OF F [unfolded Some sd] S [unfolded j(1)] j(2) W]
      show ?thesis
      proof (cases res)
        case None
        with assms P have r: "\<not> success" "s' = increment_stat Failed s3" "w' = w3"
          by simp_all
        with t1 t2 t3 have "new_trace w w' = (?get, r1) # (?post, r2) # wt @ []"
          by (simp add: new_trace_def)
        with r n404 F Some sd S j W None wc show ?thesis
          by (intro exI [of _ r1] exI [of _ "(?post, r2) # wt @ []"]) force
      next
        case (Some results)
        obtain s4 w4 where V:
          "save_results env cfg uniprot_id sq d results s3 w3 = (s4, w4)"
          by (cases "save_results env cfg uniprot_id sq d results s3 w3")
        from save_results_effect [OF V] obtain sv where t4: "trace w4 = trace w3 @ sv"
          and sn: "sv \<noteq> []" and sc: "\<forall>(c, r) \<in> set sv. save_call cfg uniprot_id c"
          by blast
        from assms P Some V have r: "success" "s' = s4" "w' = w4" by simp_all
        with t1 t2 t3 t4 have "new_trace w w' = (?get, r1) # (?post, r2) # wt @ sv"
          by (simp add: new_trace_def)
        with r n404 F \<open>f = Some sd\<close> sd S j W Some V wc sn sc show ?thesis
          by (intro exI [of _ r1] exI [of _ "(?post, r2) # wt @ sv"]) force
      qed
    qed
  qed
qed

theorem stages_run_in_order_witness:
  "process_single_protein (test_env badid_script) test_config ''BADID'' init_stats world0
     = (False,
        \<lparr>total_ids = 0, sequences_fetched = 0, interproscan_submitted = 0,
          interproscan_completed = 0, failed = 1,
          errors = [''BADID: UniProt fetch failed - HTTP 404'']\<rparr>,
        \<lparr>clock = 1, trace = [(Get ''u/BADID.fasta'', Response 404 ''Not Found'')],
          files = Map.empty\<rparr>)
   \<and> map fst (new_trace world0 (snd (snd (process_single_protein (test_env success_script)
         test_config ''P12345'' init_stats world0))))
     = [Get ''u/P12345.fasta'',
        Post ''i/run'' [(''email'', Some ''a@b.c''), (''sequence'', Some ''MKT''),
          (''format'', Some ''json''), (''goterms'', Some ''true''),
          (''pathways'', Some ''true'')],
        Get ''i/status/iprscan5-R1'', Sleep 30, Get ''i/status/iprscan5-R1'',
        Get ''i/result/iprscan5-R1/json'',
        Open_w [''out'', ''sequences'', ''P12345.fasta''],
        Write [''out'', ''sequences'', ''P12345.fasta''] (''>Test protein'' @ [newline]),
        Write [''out'', ''sequences'', ''P12345.fasta''] (''MKT'' @ [newline]),
        Open_w [''out'', ''interproscan_results'', ''P12345.json''],
        Write [''out'', ''interproscan_results'', ''P12345.json''] ''[1, 2]'']"
proof -
  let ?P = "process_single_protein (test_env badid_script) test_config ''BADID''
              init_stats world0"
  let ?w = "\<lparr>clock = 1, trace = [(Get ''u/BADID.fasta'', Response 404 ''Not Found'')],
          files = Map.empty\<rparr>"
  have w: "snd (snd ?P) = ?w"
    by (simp add: badid_script_def stage_defs world_defs)
  have P: "?P = (fst ?P, fst (snd ?P), snd (snd ?P))" by simp
  have n: "new_trace world0 ?w = [(Get ''u/BADID.fasta'', Response 404 ''Not Found'')]"
    by (simp add: new_trace_def world0_def)
  from stages_run_in_order [OF P] obtain r1 rest where
    a: "new_trace world0 (snd (snd ?P))
          = (Get (uniprot_base_url test_config @ ''BADID'' @ ''.fasta''), r1) # rest"
    and b: "\<forall>body. r1 = Response 404 body \<longrightarrow>
          rest = [] \<and> \<not> fst ?P \<and> failed (fst (snd ?P)) = failed init_stats + 1
          \<and> errors (fst (snd ?P))
              = errors init_stats @ [''BADID'' @ '': UniProt fetch failed - HTTP 404'']"
    by blast
  from a w n have "r1 = Response 404 ''Not Found''" by simp
  with b have c: "\<not> fst ?P" "failed (fst (snd ?P)) = 1"
    "errors (fst (snd ?P)) = [''BADID: UniProt fetch failed - HTTP 404'']"
    by (simp_all add: init_stats_def)
  have d: "total_ids (fst (snd ?P)) = 0" "sequences_fetched (fst (snd ?P)) = 0"
    "interproscan_submitted (fst (snd ?P)) = 0" "interproscan_completed (fst (snd ?P)) = 0"
    by (simp_all add: badid_script_def stage_defs world_defs)
  have 1: "?P = (False,
        \<lparr>total_ids = 0, sequences_fetched = 0, interproscan_submitted = 0,
          interproscan_completed = 0, failed = 1,
          errors = [''BADID: UniProt fetch failed - HTTP 404'']\<rparr>, ?w)"
    using c d w by (simp add: prod_eq_iff stats.equality)
  have 2: "map fst (new_trace world0 (snd (snd (process_single_protein (test_env success_script)
         test_config ''P12345'' init_stats world0))))
     = [Get ''u/P12345.fasta'',
        Post ''i/run'' [(''email'', Some ''a@b.c''), (''sequence'', Some ''MKT''),
          (''format'', Some ''json''), (''goterms'', Some ''true''),
          (''pathways'', Some ''true'')],
        Get ''i/status/iprscan5-R1'', Sleep 30, Get ''i/status/iprscan5-R1'',
        Get ''i/result/iprscan5-R1/json'',
        Open_w [''out'', ''sequences'', ''P12345.fasta''],
        Write [''out'', ''sequences'', ''P12345.fasta''] (''>Test protein'' @ [newline]),
        Write [''out'', ''sequences'', ''P12345.fasta''] (''MKT'' @ [newline]),
        Open_w [''out'', ''interproscan_results'', ''P12345.json''],
        Write [''out'', ''interproscan_results'', ''P12345.json''] ''[1, 2]'']"
    by (simp add: success_script_def stage_defs world_defs wait_loop.simps write_lines.simps
          new_trace_def)
  from 1 2 show ?thesis by simp
qed

subsection \<open>Statuses the loop does not know\<close>

text \<open>
  C5: on a status that is none of RUNNING, FINISHED, ERROR and FAILURE the loop sleeps
  for \<^verbatim>\<open>check_interval\<close> seconds and goes round again, the statistics untouched;
  and a wait whose last status was such a one (or that saw none) ended by the timeout.
\<close>

theorem unrecognized_status_is_retried:
  "(clock w - start_time < of_int max_wait
      \<and> check_job_status env cfg job_id w = (status, w1)
      \<and> status \<notin> {''RUNNING'', ''FINISHED'', ''ERROR'', ''FAILURE''}
    \<longrightarrow> wait_loop env cfg job_id uniprot_id max_wait start_time s w
        = wait_loop env cfg job_id uniprot_id max_wait start_time s
            (sleep env check_interval w1))
   \<and> (wait_for_completion env cfg job_id uniprot_id max_wait s w = (res, s', w')
      \<and> (observed_statuses cfg job_id (new_trace w w') = []
         \<or> last (observed_statuses cfg job_id (new_trace w w'))
             \<notin> {''RUNNING'', ''FINISHED'', ''ERROR'', ''FAILURE''})
    \<longrightarrow> res = None \<and> of_int max_wait \<le> clock w' - clock w
      \<and> s' = add_error (uniprot_id @ '': Timed out after '' @ str_int max_wait
                @ '' seconds'') s)"
proof (intro conjI impI)
  assume a: "clock w - start_time < of_int max_wait
      \<and> check_job_status env cfg job_id w = (status, w1)
      \<and> status \<notin> {''RUNNING'', ''FINISHED'', ''ERROR'', ''FAILURE''}"
  then have "status \<noteq> ''FINISHED''" "status \<noteq> ''ERROR''" "status \<noteq> ''FAILURE''"
    by auto
  with a show "wait_loop env cfg job_id uniprot_id max_wait start_time s w
        = wait_loop env cfg job_id uniprot_id max_wait start_time s
            (sleep env check_interval w1)"
    by (intro wait_loop_continue) simp_all
next
  let ?obs = "observed_statuses cfg job_id (new_trace w w')"
  assume b: "wait_for_completion env cfg job_id uniprot_id max_wait s w = (res, s', w')
      \<and> (?obs = [] \<or> last ?obs \<notin> {''RUNNING'', ''FINISHED'', ''ERROR'', ''FAILURE''})"
  then have "?obs = [] \<or> \<not> terminal (last ?obs)"
    by (auto simp: terminal_def)
  moreover from b have "wait_for_completion env cfg job_id uniprot_id max_wait s w
     = (res, s', w')" by simp
  note conjunct2 [OF conjunct2 [OF wait_for_completion_outcome [OF this]]]
  ultimately have r: "res = None \<and> of_int max_wait \<le> clock w' - clock w
      \<and> s' = add_error (uniprot_id @ '': Timed out after '' @ str_int max_wait
                @ '' seconds'') s"
    by (simp only: if_True)
  from r show "res = None" by simp
  from r show "of_int max_wait \<le> clock w' - clock w" by simp
  from r show "s' = add_error (uniprot_id @ '': Timed out after '' @ str_int max_wait
                @ '' seconds'') s" by simp
qed

theorem unrecognized_status_is_retried_witness:
  "fst (check_job_status (test_env queued_script) test_config ''iprscan5-R1'' world0)
     = ''QUEUED''
   \<and> observed_statuses test_config ''iprscan5-R1''
       (new_trace world0 (snd (snd (wait_for_completion (test_env queued_script) test_config
          ''iprscan5-R1'' ''P12345'' 60 init_stats world0))))
     = [''QUEUED'', ''NOT_FOUND'']
   \<and> wait_for_completion (test_env queued_script) test_config ''iprscan5-R1'' ''P12345'' 60
       init_stats world0
     = (None, add_error ''P12345: Timed out after 60 seconds'' init_stats,
        snd (snd (wait_for_completion (test_env queued_script) test_config ''iprscan5-R1''
                    ''P12345'' 60 init_stats world0)))
   \<and> wait_loop (test_env queued_script) test_config ''iprscan5-R1'' ''P12345'' 60 0
       init_stats world0
     = wait_loop (test_env queued_script) test_config ''iprscan5-R1'' ''P12345'' 60 0
         init_stats
         (sleep (test_env queued_script) check_interval
            (snd (check_job_status (test_env queued_script) test_config ''iprscan5-R1''
                    world0)))"
proof -
  let ?env = "test_env queued_script" and ?cfg = test_config and ?job = "''iprscan5-R1''"
  let ?K = "check_job_status ?env ?cfg ?job world0"
  let ?A = "wait_for_completion ?env ?cfg ?job ''P12345'' 60 init_stats world0"
  have k: "fst ?K = ''QUEUED''"
    by (simp add: queued_script_def stage_defs world_defs)
  then have K: "?K = (''QUEUED'', snd ?K)" by (metis prod.collapse)
  have c: "clock world0 - 0 < of_int 60" by (simp add: world0_def)
  have q: "''QUEUED'' \<notin> {''RUNNING'', ''FINISHED'', ''ERROR'', ''FAILURE''}" by simp
  have a: "observed_statuses ?cfg ?job (new_trace world0 (snd (snd ?A)))
             = [''QUEUED'', ''NOT_FOUND'']"
    by (simp add: queued_script_def stage_defs world_defs wait_loop.simps new_trace_def
          observed_statuses_def)
  have A: "?A = (fst ?A, fst (snd ?A), snd (snd ?A))" by simp
  have 1: "wait_loop ?env ?cfg ?job ''P12345'' 60 0 init_stats world0
     = wait_loop ?env ?cfg ?job ''P12345'' 60 0 init_stats
         (sleep ?env check_interval (snd ?K))"
    using unrecognized_status_is_retried [of world0 0 60 ?env ?cfg ?job "''QUEUED''" "snd ?K"
        "''P12345''" init_stats] c K q
    by simp
  have 2: "fst ?A = None"
    "fst (snd ?A) = add_error ''P12345: Timed out after 60 seconds'' init_stats"
    using unrecognized_status_is_retried [of world0 0 60 ?env ?cfg ?job "''QUEUED''" "snd ?K"
        "''P12345''" init_stats "fst ?A" "fst (snd ?A)" "snd (snd ?A)"] A a
    by (simp_all add: world_defs)
  from k a 1 2 show ?thesis by (simp add: prod_eq_iff)
qed

subsection \<open>A save that fails\<close>

text \<open>
  C6: when fetch, submit and wait succeeded, \<^verbatim>\<open>process_single_protein\<close> returns
  \<^verbatim>\<open>True\<close> whatever \<^verbatim>\<open>save_results\<close> did: \<open>failed\<close> is as it was before the
  protein and \<open>interproscan_completed\<close> is one more. The calls of the save are the
  \<^verbatim>\<open>open\<close> and \<^verbatim>\<open>write\<close> calls on the two files of the protein; at most one of
  them raises, and the error log grows by exactly the entries
  \<^verbatim>\<open><id>: Save error - <exception>\<close> of the exceptions raised: one entry when a call
  raised, none when none did. The save changes nothing else in the statistics.
\<close>

theorem save_failure_keeps_success:
  assumes "fetch_uniprot_sequence env cfg uniprot_id s w = (Some (sq, d), s1, w1)"
    and "submit_to_interproscan env cfg uniprot_id sq s1 w1 = (Some job_id, s2, w2)"
    and "job_id \<noteq> []"
    and "wait_for_completion env cfg job_id uniprot_id default_max_wait s2 w2
           = (Some results, s3, w3)"
    and "save_results env cfg uniprot_id sq d results s3 w3 = (s4, w4)"
  shows "process_single_protein env cfg uniprot_id s w = (True, s4, w4)
   \<and> failed s4 = failed s
   \<and> interproscan_completed s4 = interproscan_completed s + 1
   \<and> trace w4 = trace w3 @ new_trace w3 w4
   \<and> (\<forall>(c, r) \<in> set (new_trace w3 w4). save_call cfg uniprot_id c)
   \<and> length (raised (new_trace w3 w4)) \<le> 1
   \<and> errors s4 = errors s3
        @ map (\<lambda>e. uniprot_id @ '': Save error - '' @ e) (raised (new_trace w3 w4))
   \<and> s4 = s3\<lparr>errors := errors s4\<rparr>"
proof -
  from process_after_wait [OF assms(1-4)] assms(5)
  have p: "process_single_protein env cfg uniprot_id s w = (True, s4, w4)" by simp
  from process_single_protein_counters [OF p]
  have c: "failed s4 = failed s" "interproscan_completed s4 = interproscan_completed s + 1"
    by simp_all
  note r = save_results_raised [OF assms(5)]
  from r have t: "trace w4 = trace w3 @ new_trace w3 w4"
    and l: "length (raised (new_trace w3 w4)) \<le> 1"
    and e: "s4 = s3\<lparr>errors := errors s3
            @ map (\<lambda>e. uniprot_id @ '': Save error - '' @ e) (raised (new_trace w3 w4))\<rparr>"
    by simp_all
  from e have e1: "errors s4 = errors s3
        @ map (\<lambda>e. uniprot_id @ '': Save error - '' @ e) (raised (new_trace w3 w4))"
    using arg_cong [OF e, of errors] by simp
  have e2: "s4 = s3\<lparr>errors := errors s4\<rparr>" unfolding e1 by (rule e)
  from save_results_effect [OF assms(5)] obtain ext where "trace w4 = trace w3 @ ext"
    "\<forall>(c, r) \<in> set ext. save_call cfg uniprot_id c" by blast
  then have k: "\<forall>(c, r) \<in> set (new_trace w3 w4). save_call cfg uniprot_id c"
    by (simp add: new_trace_def)
  from p c t k l e1 e2 show ?thesis by blast
qed

theorem save_failure_keeps_success_witness:
  "process_single_protein (test_env disk_full_script) test_config ''P12345'' init_stats world0
     = (True,
        \<lparr>total_ids = 0, sequences_fetched = 1, interproscan_submitted = 1,
          interproscan_completed = 1, failed = 0,
          errors = [''P12345: Save error - No space left on device'']\<rparr>,
        snd (snd (process_single_protein (test_env disk_full_script) test_config ''P12345''
                    init_stats world0)))
   \<and> process_single_protein (test_env json_denied_script) test_config ''P12345'' init_stats
        world0
     = (True,
        \<lparr>total_ids = 0, sequences_fetched = 1, interproscan_submitted = 1,
          interproscan_completed = 1, failed = 0,
          errors = [''P12345: Save error - Permission denied'']\<rparr>,
        snd (snd (process_single_protein (test_env json_denied_script) test_config ''P12345''
                    init_stats world0)))"
proof -
  let ?cfg = test_config and ?uid = "''P12345''" and ?job = "''iprscan5-R1''"
  let ?s3 = "\<lparr>total_ids = 0, sequences_fetched = 1, interproscan_submitted = 1,
          interproscan_completed = 1, failed = 0, errors = []\<rparr>"
  have n: "?job \<noteq> []" by simp
  have 1: "process_single_protein (test_env disk_full_script) ?cfg ?uid init_stats world0
     = (True, ?s3\<lparr>errors := [''P12345: Save error - No space left on device'']\<rparr>,
        snd (snd (process_single_protein (test_env disk_full_script) ?cfg ?uid
                    init_stats world0)))"
  proof -
    let ?env = "test_env disk_full_script"
    let ?F = "fetch_uniprot_sequence ?env ?cfg ?uid init_stats world0"
    let ?S = "submit_to_interproscan ?env ?cfg ?uid ''MKT'' (fst (snd ?F)) (snd (snd ?F))"
    let ?W = "wait_for_completion ?env ?cfg ?job ?uid default_max_wait
                (fst (snd ?S)) (snd (snd ?S))"
    let ?V = "save_results ?env ?cfg ?uid ''MKT'' ''Test protein'' ''[1, 2]''
                (fst (snd ?W)) (snd (snd ?W))"
    have "fst ?F = Some (''MKT'', ''Test protein'')"
      by (simp add: disk_full_script_def stage_defs world_defs)
    then have F: "?F = (Some (''MKT'', ''Test protein''), fst (snd ?F), snd (snd ?F))"
      by (metis prod.collapse)
    have "fst ?S = Some ?job"
      by (simp add: disk_full_script_def stage_defs world_defs)
    then have S: "?S = (Some ?job, fst (snd ?S), snd (snd ?S))"
      by (metis prod.collapse)
    have "fst ?W = Some ''[1, 2]''"
      by (simp add: disk_full_script_def stage_defs world_defs wait_loop.simps)
    then have W: "?W = (Some ''[1, 2]'', fst (snd ?W), snd (snd ?W))"
      by (metis prod.collapse)
    have V: "?V = (fst ?V, snd ?V)" by simp
    have s3: "fst (snd ?W) = ?s3"
      by (simp add: disk_full_script_def stage_defs world_defs wait_loop.simps)
    have r: "raised (new_trace (snd (snd ?W)) (snd ?V)) = [''No space left on device'']"
      by (simp add: disk_full_script_def stage_defs world_defs wait_loop.simps new_trace_def)
    note t = save_failure_keeps_success [OF F S n W V]
    from t have p: "process_single_protein ?env ?cfg ?uid init_stats world0
        = (True, fst ?V, snd ?V)" by (rule conjunct1)
    from t have e: "errors (fst ?V) = errors (fst (snd ?W))
        @ map (\<lambda>e. ?uid @ '': Save error - '' @ e)
            (raised (new_trace (snd (snd ?W)) (snd ?V)))"
      and u: "fst ?V = (fst (snd ?W))\<lparr>errors := errors (fst ?V)\<rparr>"
      by blast+
    from e [unfolded r] have e': "errors (fst ?V) = [''P12345: Save error - No space left on device'']"
      unfolding s3 by simp
    from u [unfolded e']
    have "fst ?V = ?s3\<lparr>errors := [''P12345: Save error - No space left on device'']\<rparr>"
      unfolding s3 .
    with p show ?thesis by (simp add: prod_eq_iff)
  qed
  have 2: "process_single_protein (test_env json_denied_script) ?cfg ?uid init_stats world0
     = (True, ?s3\<lparr>errors := [''P12345: Save error - Permission denied'']\<rparr>,
        snd (snd (process_single_protein (test_env json_denied_script) ?cfg ?uid
                    init_stats world0)))"
  proof -
    let ?env = "test_env json_denied_script"
    let ?F = "fetch_uniprot_sequence ?env ?cfg ?uid init_stats world0"
    let ?S = "submit_to_interproscan ?env ?cfg ?uid ''MKT'' (fst (snd ?F)) (snd (snd ?F))"
    let ?W = "wait_for_completion ?env ?cfg ?job ?uid default_max_wait
                (fst (snd ?S)) (snd (snd ?S))"
    let ?V = "save_results ?env ?cfg ?uid ''MKT'' ''Test protein'' ''[1, 2]''
                (fst (snd ?W)) (snd (snd ?W))"
    have "fst ?F = Some (''MKT'', ''Test protein'')"
      by (simp add: json_denied_script_def stage_defs world_defs)
    then have F: "?F = (Some (''MKT'', ''Test protein''), fst (snd ?F), snd (snd ?F))"
      by (metis prod.collapse)
    have "fst ?S = Some ?job"
      by (simp add: json_denied_script_def stage_defs world_defs)
    then have S: "?S = (Some ?job, fst (snd ?S), snd (snd ?S))"
      by (metis prod.collapse)
    have "fst ?W = Some ''[1, 2]''"
      by (simp add: json_denied_script_def stage_defs world_defs wait_loop.simps)
    then have W: "?W = (Some ''[1, 2]'', fst (snd ?W), snd (snd ?W))"
      by (metis prod.collapse)
    have V: "?V = (fst ?V, snd ?V)" by simp
    have s3: "fst (snd ?W) = ?s3"
      by (simp add: json_denied_script_def stage_defs world_defs wait_loop.simps)
    have r: "raised (new_trace (snd (snd ?W)) (snd ?V)) = [''Permission denied'']"
      by (simp add: json_denied_script_def stage_defs world_defs wait_loop.simps
            write_lines.simps new_trace_def)
    note t = save_failure_keeps_success [OF F S n W V]
    from t have p: "process_single_protein ?env ?cfg ?uid init_stats world0
        = (True, fst ?V, snd ?V)" by (rule conjunct1)
    from t have e: "errors (fst ?V) = errors (fst (snd ?W))
        @ map (\<lambda>e. ?uid @ '': Save error - '' @ e)
            (raised (new_trace (snd (snd ?W)) (snd ?V)))"
      and u: "fst ?V = (fst (snd ?W))\<lparr>errors := errors (fst ?V)\<rparr>"
      by blast+
    from e [unfolded r] have e': "errors (fst ?V) = [''P12345: Save error - Permission denied'']"
      unfolding s3 by simp
    from u [unfolded e']
    have "fst ?V = ?s3\<lparr>errors := [''P12345: Save error - Permission denied'']\<rparr>"
      unfolding s3 .
    with p show ?thesis by (simp add: prod_eq_iff)
  qed
  from 1 2 show ?thesis by simp
qed

subsection \<open>Saving twice\<close>

text \<open>
  C7: a call of \<^verbatim>\<open>save_results\<close> that logs no error leaves, in the sequence file,
  the header line and the sequence in lines of 80 characters, and in the result file the
  text of \<^verbatim>\<open>json.dump\<close>: both depend on the arguments only. A second such call with
  the same arguments leaves every file as the first did.
\<close>

theorem save_results_twice_same_files:
  assumes "save_results env cfg uniprot_id sequence description results s w = (s, w1)"
    and "save_results env cfg uniprot_id sequence description results s w1 = (s, w2)"
  shows "files w1 (fasta_path cfg uniprot_id) = Some (fasta_text description sequence)
   \<and> files w1 (json_path cfg uniprot_id) = Some (json_dump env results)
   \<and> files w2 = files w1"
proof -
  from save_results_effect [OF assms(1)]
  have 1: "files w1 = (files w)
           (fasta_path cfg uniprot_id \<mapsto> fasta_text description sequence,
            json_path cfg uniprot_id \<mapsto> json_dump env results)" by blast
  from save_results_effect [OF assms(2)]
  have 2: "files w2 = (files w1)
           (fasta_path cfg uniprot_id \<mapsto> fasta_text description sequence,
            json_path cfg uniprot_id \<mapsto> json_dump env results)" by blast
  from 1 have a: "files w1 (fasta_path cfg uniprot_id) = Some (fasta_text description sequence)"
    "files w1 (json_path cfg uniprot_id) = Some (json_dump env results)" by simp_all
  from 2 a have "files w2 = files w1" by (auto simp: fun_eq_iff)
  with a show ?thesis by simp
qed

theorem save_results_twice_same_files_witness:
  "files (snd (save_results (test_env saves_script) test_config ''P12345'' long_sequence
       ''Test protein'' ''[1, 2]'' init_stats world0)) (fasta_path test_config ''P12345'')
     = Some (''>Test protein'' @ [newline] @ take 80 long_sequence @ [newline]
              @ drop 80 long_sequence @ [newline])
   \<and> files (snd (save_results (test_env saves_script) test_config ''P12345'' long_sequence
       ''Test protein'' ''[1, 2]'' init_stats world0)) (json_path test_config ''P12345'')
     = Some ''[1, 2]''
   \<and> files (snd (save_results (test_env saves_script) test_config ''P12345'' long_sequence
       ''Test protein'' ''[1, 2]'' init_stats
       (snd (save_results (test_env saves_script) test_config ''P12345'' long_sequence
          ''Test protein'' ''[1, 2]'' init_stats world0))))
     = files (snd (save_results (test_env saves_script) test_config ''P12345'' long_sequence
       ''Test protein'' ''[1, 2]'' init_stats world0))"
proof -
  let ?env = "test_env saves_script"
  let ?A = "save_results ?env test_config ''P12345'' long_sequence ''Test protein'' ''[1, 2]''
              init_stats world0"
  let ?B = "save_results ?env test_config ''P12345'' long_sequence ''Test protein'' ''[1, 2]''
              init_stats (snd ?A)"
  have "fst ?A = init_stats"
    by (simp add: saves_script_def long_sequence_def stage_defs world_defs write_lines.simps)
  then have A: "?A = (init_stats, snd ?A)" by (metis prod.collapse)
  have "fst ?B = init_stats"
    by (simp add: saves_script_def long_sequence_def stage_defs world_defs write_lines.simps)
  then have B: "?B = (init_stats, snd ?B)" by (metis prod.collapse)
  have t: "fasta_text ''Test protein'' long_sequence
     = ''>Test protein'' @ [newline] @ take 80 long_sequence @ [newline]
              @ drop 80 long_sequence @ [newline]"
    by (simp add: fasta_text_def fasta_lines.simps long_sequence_def)
  have j: "json_dump ?env ''[1, 2]'' = ''[1, 2]''" by (simp add: test_env_def)
  from save_results_twice_same_files [OF A B] t j show ?thesis by simp
qed

subsection \<open>A missing email argument\<close>

text \<open>
  C8: with the input file and the output directory but no email,
  \<^verbatim>\<open>len(sys.argv) < 3\<close> is false and \<^verbatim>\<open>sys.argv[3]\<close> raises \<^verbatim>\<open>IndexError\<close>:
  \<^verbatim>\<open>main\<close> prints neither the usage nor the message about the email. By
  \<open>main_command_line\<close> the other bad command lines end as the claim says.
\<close>

theorem main_without_email_raises:
  "main env [''interproscan_pipeline.py'', ''uniprot_ids.txt'', ''results/''] w
     = (([], Uncaught ''IndexError''), w)"
  by (simp add: main_def)

theorem main_without_email_raises_witness:
  "main (test_env []) [''interproscan_pipeline.py'', ''uniprot_ids.txt'', ''results/''] world0
     = (([], Uncaught ''IndexError''), world0)
   \<and> main (test_env []) [''interproscan_pipeline.py'', ''uniprot_ids.txt''] world0
     = ((usage, Sys_exit 1), world0)"
  using main_without_email_raises [of "test_env []" world0]
  by (simp add: main_def)

subsection \<open>No update is lost\<close>

text \<open>
  C9: any number of workers, each with its list of updates, run from the initial
  statistics under any schedule. At every moment at most one thread is inside a
  \<^verbatim>\<open>with self.lock\<close> block. When all threads are done, every counter is its initial
  value plus the number of increments the workers made to it, and every message is in
  the error log once more for each time a worker appended it. From every state reached,
  some continuation of the schedule lets all threads finish.
\<close>

theorem locked_updates_are_not_lost:
  assumes "run_threads schedule (start tasks s0) = (ts, lock, s)"
  shows "(\<forall>i j. i < length ts \<and> j < length ts
            \<and> pos (ts ! i) \<noteq> Outside \<and> pos (ts ! j) \<noteq> Outside \<longrightarrow> i = j)
   \<and> (finished (ts, lock, s) \<longrightarrow>
        (\<forall>stat_name. get_stat stat_name s
             = get_stat stat_name s0 + int (count_list (concat tasks) (Inc stat_name)))
      \<and> (\<forall>error. count_list (errors s) error
             = count_list (errors s0) error + count_list (concat tasks) (Err error)))
   \<and> (\<exists>rest. finished (run_threads (schedule @ rest) (start tasks s0)))"
proof (intro conjI impI allI)
  from run_threads_lock_inv [OF lock_inv_start, of schedule tasks s0] assms
  have i: "lock_inv (ts, lock, s)" by simp
  {
    fix i j
    assume "i < length ts \<and> j < length ts
            \<and> pos (ts ! i) \<noteq> Outside \<and> pos (ts ! j) \<noteq> Outside"
    then have "i < length ts" "j < length ts" "pos (ts ! i) \<noteq> Outside"
      "pos (ts ! j) \<noteq> Outside" by simp_all
    with lock_inv_held [OF i] have "lock = Some i" "lock = Some j" by blast+
    then show "i = j" by simp
  }
  from threads_can_finish [OF i] assms
  show "\<exists>rest. finished (run_threads (schedule @ rest) (start tasks s0))"
    by (simp add: run_threads_append)
next
  fix stat_name
  assume "finished (ts, lock, s)"
  then have f: "\<forall>t \<in> set ts. todo t = []" by (simp add: finished_def)
  from run_threads_account [OF lock_inv_start, of "Inc stat_name" schedule tasks s0] assms
    account_finished [OF f] account_start
  show "get_stat stat_name s
          = get_stat stat_name s0 + int (count_list (concat tasks) (Inc stat_name))"
    by simp
next
  fix error
  assume "finished (ts, lock, s)"
  then have f: "\<forall>t \<in> set ts. todo t = []" by (simp add: finished_def)
  from run_threads_account [OF lock_inv_start, of "Err error" schedule tasks s0] assms
    account_finished [OF f] account_start
  have "int (count_list (errors s) error)
          = int (count_list (errors s0) error) + int (count_list (concat tasks) (Err error))"
    by simp
  then show "count_list (errors s) error
          = count_list (errors s0) error + count_list (concat tasks) (Err error)"
    by linarith
qed

theorem locked_updates_are_not_lost_witness:
  "run_threads three_schedule (start three_tasks init_stats)
     = ([\<lparr>pos = Outside, todo = [], tmp = 0\<rparr>, \<lparr>pos = Outside, todo = [], tmp = 1\<rparr>,
         \<lparr>pos = Outside, todo = [], tmp = 0\<rparr>],
        None,
        \<lparr>total_ids = 0, sequences_fetched = 0, interproscan_submitted = 0,
          interproscan_completed = 1, failed = 2, errors = [''A: Timed out'']\<rparr>)
   \<and> get_stat Failed (snd (snd (run_threads three_schedule (start three_tasks init_stats))))
     = 2
   \<and> count_list
       (errors (snd (snd (run_threads three_schedule (start three_tasks init_stats)))))
       ''A: Timed out'' = 1"
proof -
  let ?ts = "[\<lparr>pos = Outside, todo = [], tmp = 0\<rparr>, \<lparr>pos = Outside, todo = [], tmp = 1\<rparr>,
         \<lparr>pos = Outside, todo = [], tmp = 0\<rparr>]"
  let ?s = "\<lparr>total_ids = 0, sequences_fetched = 0, interproscan_submitted = 0,
          interproscan_completed = 1, failed = 2, errors = [''A: Timed out'']\<rparr>"
  have r: "run_threads three_schedule (start three_tasks init_stats) = (?ts, None, ?s)"
    by (simp add: run_threads_def three_schedule_def three_tasks_def start_def
          start_thread_def init_stats_def step.simps add_error_def)
  have f: "finished (?ts, None, ?s)" by (simp add: finished_def)
  from locked_updates_are_not_lost [OF r] f
  have "get_stat Failed ?s
      = get_stat Failed init_stats + int (count_list (concat three_tasks) (Inc Failed))"
    "count_list (errors ?s) ''A: Timed out''
      = count_list (errors init_stats) ''A: Timed out''
        + count_list (concat three_tasks) (Err ''A: Timed out'')"
    by blast+
  with r show ?thesis by (simp add: three_tasks_def init_stats_def)
qed

subsection \<open>A wait that may not wait\<close>

text \<open>
  C10: when \<^verbatim>\<open>max_wait\<close> is zero or negative, \<^verbatim>\<open>wait_for_completion\<close> returns
  \<^verbatim>\<open>None\<close> at once, with one timed-out entry appended to the error log and the
  world as it was: no status request was made, whatever the job would have answered.
\<close>

theorem no_poll_when_max_wait_not_positive:
  "max_wait \<le> 0 \<Longrightarrow>
     wait_for_completion env cfg job_id uniprot_id max_wait s w =
       (None,
        add_error (uniprot_id @ '': Timed out after '' @ str_int max_wait @ '' seconds'') s,
        w)"
  by (simp add: wait_for_completion_def wait_loop.simps)

theorem no_poll_when_max_wait_not_positive_witness:
  "(0::int) \<le> 0
   \<and> fst (check_job_status (test_env finished_script) test_config ''iprscan5-R1'' world0)
       = ''FINISHED''
   \<and> wait_for_completion (test_env finished_script) test_config ''iprscan5-R1'' ''P12345'' 0
         init_stats world0
       = (None, init_stats\<lparr>errors := [''P12345: Timed out after 0 seconds'']\<rparr>, world0)"
proof -
  have "fst (check_job_status (test_env finished_script) test_config ''iprscan5-R1'' world0)
       = ''FINISHED''"
    by (simp add: finished_script_def stage_defs world_defs)
  moreover have "add_error (''P12345'' @ '': Timed out after '' @ str_int 0 @ '' seconds'')
      init_stats = init_stats\<lparr>errors := [''P12345: Timed out after 0 seconds'']\<rparr>"
    by (simp add: world_defs)
  ultimately show ?thesis
    using no_poll_when_max_wait_not_positive
      [of 0 "test_env finished_script" test_config "''iprscan5-R1''" "''P12345''"
          init_stats world0]
    by simp
qed

end
